theory Spec2Isabelle
  imports Main "HOL-Library.Word"
begin

section \<open>The deployment worker of rise-server (deployer.Work)\<close>

text \<open>
  The theory embeds \<^verbatim>\<open>src/deployer/deployer/deployer.go\<close>. \<^verbatim>\<open>Work\<close> is one long
  procedure over four collaborators (the database, the object store, the message bus and
  the analytics tracker). The embedding threads a \<open>world\<close> through it: the database
  tables, the open transaction, and the \<open>trace\<close> of every call made to a collaborator, in
  order. Whether a call fails is decided by the environment (\<open>fails\<close>), which sees the
  trace so far and the call; so every \<^verbatim>\<open>if err != nil\<close> of the source is a branch here.
\<close>

subsection \<open>Data model\<close>

type_synonym bytes = string

text \<open>
  Modelled from the spec: the states of package \<^verbatim>\<open>deployment\<close>, which is not among the
  sources (section 4.6, state machine). \<^verbatim>\<open>Work\<close> itself names only \<^verbatim>\<open>StateUploaded\<close>,
  \<^verbatim>\<open>StatePendingUpload\<close>, \<^verbatim>\<open>StateDeployed\<close> and \<^verbatim>\<open>StateDeployFailed\<close>.
\<close>

datatype deploy_state =
    StatePendingUpload
  | StateUploaded
  | StatePendingDeploy
  | StateDeployed
  | StateDeployFailed

text \<open>
  Modelled from the spec: the rows of the tables (section 3); the Go structs are in
  packages \<^verbatim>\<open>deployment\<close>, \<^verbatim>\<open>project\<close> and \<^verbatim>\<open>rawbundle\<close>, not among the sources. Field
  names are the ones \<^verbatim>\<open>Work\<close> reads, prefixed by the table. A time is an integer, the
  nanoseconds since the epoch.
\<close>

record Deployment =
  d_ID :: nat
  d_ProjectID :: nat
  d_UserID :: nat
  d_Prefix :: string
  d_Version :: int
  d_State :: deploy_state
  d_JsEnvVars :: bytes
  d_RawBundleID :: "nat option"
  d_ErrorMessage :: "string option"
  d_CreatedAt :: int
  d_DeployedAt :: "int option"
  d_DeletedAt :: "int option"

record Project =
  p_ID :: nat
  p_Name :: string
  p_Watermark :: bool
  p_ForceHTTPS :: bool
  p_BasicAuthUsername :: "string option"
  p_EncryptedBasicAuthPassword :: "string option"
  p_MaxDeploysKept :: int
  p_ActiveDeploymentID :: "nat option"

record RawBundle =
  b_ID :: nat
  b_UploadedPath :: string

record database =
  deployments :: "Deployment list"
  projects :: "Project list"
  rawbundles :: "RawBundle list"
  users :: "nat list"
  domains :: "(nat \<times> string) list"

text \<open>
  Modelled from the spec: \<^verbatim>\<open>messages.DeployJobData\<close> (package \<^verbatim>\<open>messages\<close> is
  missing), the job payload of section 4.6.
\<close>

record DeployJobData =
  DeploymentID :: nat
  SkipWebrootUpload :: bool
  UseRawBundle :: bool
  SkipInvalidation :: bool

text \<open>
  One entry of the tar stream, as \<^verbatim>\<open>tr.Next()\<close> yields it: the header fields \<^verbatim>\<open>Work\<close>
  reads (\<^verbatim>\<open>hdr.Name\<close>, \<^verbatim>\<open>hdr.FileInfo().IsDir()\<close>, \<^verbatim>\<open>hdr.Size\<close>, an \<^verbatim>\<open>int64\<close>) and the
  bytes the reader delivers for it. A stream is a list of items; an item is an entry or
  the error \<^verbatim>\<open>tr.Next()\<close> returned; the end of the list is \<^verbatim>\<open>io.EOF\<close>.
\<close>

record Header =
  h_Name :: string
  h_IsDir :: bool
  h_Size :: "64 word"
  h_Body :: bytes

datatype tar_item = Entry Header | TarError string

text \<open>
  The unnamed struct that \<^verbatim>\<open>Work\<close> marshals into \<^verbatim>\<open>meta.json\<close> (lines 259-269).
\<close>

record meta =
  m_Prefix :: string
  m_ForceHTTPS :: bool
  m_BasicAuthUsername :: "string option"
  m_BasicAuthPassword :: "string option"

text \<open>JSON values, as \<^verbatim>\<open>encoding/json\<close> sees a document once it is parsed.\<close>

datatype json =
    JNull
  | JBool bool
  | JNumber string
  | JString string
  | JArray "json list"
  | JObject "(string \<times> json) list"

text \<open>
  The errors \<^verbatim>\<open>Work\<close> returns: its three sentinels (lines 37, 38, 72), an error handed
  up from a collaborator (with its message), and the two errors of \<^verbatim>\<open>json.Unmarshal\<close>.
\<close>

datatype error =
    ErrProjectLocked
  | ErrTimeout
  | errUnexpectedState
  | ErrCollaborator string
  | ErrJSONSyntax
  | ErrUnmarshalType

text \<open>What \<^verbatim>\<open>Work\<close> writes to the log (lines 107, 193, 215, 237, 344).\<close>

datatype log_line =
    LogUnlockFailed nat string
  | LogInvalidFilename string
  | LogWatermarkFailed string string
  | LogUpdateStateFailed string string
  | LogTrackFailed nat string

text \<open>
  The calls \<^verbatim>\<open>Work\<close> makes, in the order of the source. \<open>Upload\<close> carries key, content,
  content type and ACL; region and bucket are the same constants of \<^verbatim>\<open>s3client\<close> in
  every call and are left out. \<open>Publish\<close> carries exchange, routing key and the domains
  of the message body.
\<close>

datatype call =
    DBOpen
  | FirstDeployment nat
  | FirstProject nat
  | Lock nat
  | Unlock nat
  | FirstRawBundle nat
  | TempFile string
  | CloseRemoveTempFile string
  | Download string
  | GzipNewReader
  | GzipClose
  | InjectWatermark string
  | Upload string bytes string string
  | CallUpdateState nat deploy_state
  | CallDomainNames nat
  | NewMessage string string "string list"
  | Publish string string "string list"
  | Begin
  | UpdateActiveDeployment nat nat
  | CallDeleteExceptLastN nat int
  | Commit
  | Rollback
  | FirstUser nat
  | Track nat string string nat string int int
  | Log log_line

record world =
  db :: database
  tx :: "database option"
  trace :: "call list"

text \<open>
  The environment of one run: which calls fail (and with what message), and what the
  library functions and remote systems that \<^verbatim>\<open>Work\<close> only consumes return.
  \<open>timer\<close> is the number of \<^verbatim>\<open>tr.Next()\<close> calls the extraction goroutine completes
  before \<^verbatim>\<open>time.After(UploadTimeout)\<close> fires; \<open>None\<close> when it never fires first.
\<close>

record env =
  fails :: "call list \<Rightarrow> call \<Rightarrow> string option"
  unmarshal_job :: "bytes \<Rightarrow> error + DeployJobData"
  lock_acquired :: bool
  s3_object :: "string \<Rightarrow> bytes"
  read_archive :: "bytes \<Rightarrow> tar_item list"
  TypeByExtension :: "string \<Rightarrow> string"
  injectWatermark :: "bytes \<Rightarrow> string + bytes"
  json_decode :: "bytes \<Rightarrow> json option"
  marshal_meta :: "meta \<Rightarrow> string + bytes"
  timer :: "nat option"
  time_now :: int

subsection \<open>Constants of the package\<close>

definition MaxFileSizeToWatermark :: "64 word" where
  "MaxFileSizeToWatermark = 5 * 1000 * 1000"

definition jsenvFormat :: "string \<Rightarrow> string" where
  \<open>jsenvFormat s =
     ''(function(global, env) {'' @ [CHR 0x0A] @
     [CHR 0x09] @ ''if (typeof module === "object" && typeof module.exports === "object") {'' @ [CHR 0x0A] @
     [CHR 0x09, CHR 0x09] @ ''module.exports = env;'' @ [CHR 0x0A] @
     [CHR 0x09] @ ''} else {'' @ [CHR 0x0A] @
     [CHR 0x09, CHR 0x09] @ ''global.JSENV = env;'' @ [CHR 0x0A] @
     [CHR 0x09] @ ''}'' @ [CHR 0x0A] @
     ''}(this, '' @ s @ ''));'' @ [CHR 0x0A]\<close>

text \<open>
  The template as section 4.6 of the spec prints it, for comparison with
  \<open>jsenvFormat\<close>: two spaces of indentation per level, no line end after the last line.
\<close>

definition jsenv_spec_template :: "string \<Rightarrow> string" where
  \<open>jsenv_spec_template s =
     ''(function(global, env) {'' @ [CHR 0x0A] @
     ''  if (typeof module === "object" && typeof module.exports === "object") {'' @ [CHR 0x0A] @
     ''    module.exports = env;'' @ [CHR 0x0A] @
     ''  } else {'' @ [CHR 0x0A] @
     ''    global.JSENV = env;'' @ [CHR 0x0A] @
     ''  }'' @ [CHR 0x0A] @
     ''}(this, '' @ s @ ''));''\<close>

subsection \<open>Library functions \<^verbatim>\<open>Work\<close> calls on file names\<close>

text \<open>
  Go's \<^verbatim>\<open>path.Clean\<close>. The buffer \<open>out\<close> is the text written so far (\<^verbatim>\<open>out.w\<close> is its
  length), \<open>dotdot\<close> is the length below which \<^verbatim>\<open>..\<close> may not backtrack, the last
  argument is the unread rest of the path (\<^verbatim>\<open>path[r:]\<close>).
\<close>

fun backtrack_rev :: "nat \<Rightarrow> string \<Rightarrow> string" where
  "backtrack_rev dotdot [] = []"
| "backtrack_rev dotdot (c # rs) =
     (if length rs > dotdot \<and> c \<noteq> CHR ''/'' then backtrack_rev dotdot rs else rs)"

definition backtrack :: "nat \<Rightarrow> string \<Rightarrow> string" where
  "backtrack dotdot out = rev (backtrack_rev dotdot (rev out))"

function clean_loop :: "bool \<Rightarrow> nat \<Rightarrow> string \<Rightarrow> string \<Rightarrow> string" where
  "clean_loop rooted dotdot out [] = out"
| "clean_loop rooted dotdot out (c # rest) =
     (if c = CHR ''/'' then clean_loop rooted dotdot out rest
      else if c = CHR ''.'' \<and> (rest = [] \<or> hd rest = CHR ''/'') then
        clean_loop rooted dotdot out rest
      else if c = CHR ''.'' \<and> hd rest = CHR ''.'' \<and> (tl rest = [] \<or> hd (tl rest) = CHR ''/'') then
        (if length out > dotdot then clean_loop rooted dotdot (backtrack dotdot out) (tl rest)
         else if \<not> rooted then
           (let out' = (if length out > 0 then out @ ''/'' else out) @ ''..''
            in clean_loop rooted (length out') out' (tl rest))
         else clean_loop rooted dotdot out (tl rest))
      else
        (let out' = (if rooted \<and> length out \<noteq> 1 \<or> \<not> rooted \<and> length out \<noteq> 0
                     then out @ ''/'' else out)
         in clean_loop rooted dotdot
              (out' @ takeWhile (\<lambda>x. x \<noteq> CHR ''/'') (c # rest))
              (dropWhile (\<lambda>x. x \<noteq> CHR ''/'') (c # rest))))"
  by pat_completeness auto
termination
  by (relation "measure (\<lambda>(rooted, dotdot, out, rest). length rest)")
     (auto simp: less_Suc_eq_le length_dropWhile_le intro: le_trans [OF length_dropWhile_le])

definition path_Clean :: "string \<Rightarrow> string" where
  "path_Clean path =
     (if path = [] then ''.''
      else let rooted = (hd path = CHR ''/'');
               out = (if rooted then clean_loop True 1 ''/'' (tl path)
                      else clean_loop False 0 [] path)
           in if out = [] then ''.'' else out)"

text \<open>
  \<^verbatim>\<open>strings.Split(fileName, string(filepath.Separator))\<close>: the pieces between
  separators, \<open>[[]]\<close> for the empty string. The separator is \<^verbatim>\<open>/\<close>, as on the Unix
  hosts the worker runs on; \<^verbatim>\<open>filepath.Ext\<close> below reads it the same way.
\<close>

fun split_sep :: "string \<Rightarrow> string list" where
  "split_sep [] = [[]]"
| "split_sep (c # cs) =
     (if c = CHR ''/'' then [] # split_sep cs
      else (case split_sep cs of [] \<Rightarrow> [[c]] | p # ps \<Rightarrow> (c # p) # ps))"

text \<open>
  The pattern of line 161, \<^verbatim>\<open>[^0-9A-Za-z,!_'().*-]+\<close>: \<^verbatim>\<open>MatchString\<close> is true when the
  element has at least one character outside the class.
\<close>

definition key_safe :: "char \<Rightarrow> bool" where
  \<open>key_safe c \<longleftrightarrow>
     c \<in> set (''0123456789'' @ ''ABCDEFGHIJKLMNOPQRSTUVWXYZ'' @
              ''abcdefghijklmnopqrstuvwxyz'' @ '',!_'' @ [CHR 0x27] @ ''().*-'')\<close>

definition MatchString :: "string \<Rightarrow> bool" where
  "MatchString pathElement \<longleftrightarrow> (\<exists>c \<in> set pathElement. \<not> key_safe c)"

text \<open>Lines 183-190: the loop over the path elements.\<close>

fun isValidFileName_loop :: "string list \<Rightarrow> bool" where
  "isValidFileName_loop [] = True"
| "isValidFileName_loop (pathElement # rest) =
     (if MatchString pathElement then False else isValidFileName_loop rest)"

definition isValidFileName :: "string \<Rightarrow> bool" where
  "isValidFileName fileName = isValidFileName_loop (split_sep fileName)"

text \<open>
  \<^verbatim>\<open>filepath.Ext\<close>: the suffix from the last dot of the last path element, empty when
  that element has no dot.
\<close>

definition Ext :: "string \<Rightarrow> string" where
  "Ext path =
     (let e = takeWhile (\<lambda>c. c \<noteq> CHR ''/'') (rev path)
      in if CHR ''.'' \<in> set e then CHR ''.'' # rev (takeWhile (\<lambda>c. c \<noteq> CHR ''.'') e)
         else [])"

text \<open>Lines 197-200: the content type with its parameters cut off at the first \<^verbatim>\<open>;\<close>.\<close>

definition contentType_of :: "env \<Rightarrow> string \<Rightarrow> string" where
  "contentType_of e fileName =
     takeWhile (\<lambda>c. c \<noteq> CHR '';'') (TypeByExtension e (Ext fileName))"

subsection \<open>Calls to collaborators\<close>

text \<open>
  A call is appended to the trace; the environment says whether it fails. \<open>record_call\<close>
  is for the calls whose result \<^verbatim>\<open>Work\<close> does not look at.
\<close>

definition attempt :: "env \<Rightarrow> call \<Rightarrow> world \<Rightarrow> world \<times> string option" where
  "attempt e c w = (w\<lparr>trace := trace w @ [c]\<rparr>, fails e (trace w) c)"

definition record_call :: "call \<Rightarrow> world \<Rightarrow> world" where
  "record_call c w = w\<lparr>trace := trace w @ [c]\<rparr>"

text \<open>A query runs on the connection \<^verbatim>\<open>db\<close> or inside the transaction \<^verbatim>\<open>tx\<close>.\<close>

datatype handle = OnDB | OnTx

fun on_handle :: "handle \<Rightarrow> (database \<Rightarrow> database) \<Rightarrow> world \<Rightarrow> world" where
  "on_handle OnDB f w = w\<lparr>db := f (db w)\<rparr>"
| "on_handle OnTx f w = w\<lparr>tx := map_option f (tx w)\<rparr>"

text \<open>
  Modelled from the spec: \<^verbatim>\<open>Deployment.PrefixID\<close> (package \<^verbatim>\<open>deployment\<close> is missing),
  section 3: \<^verbatim>\<open>PrefixID = prefix + "-" + id\<close>, the id in decimal.
\<close>

function string_of_nat :: "nat \<Rightarrow> string" where
  "string_of_nat n =
     (if n < 10 then [''0123456789'' ! n]
      else string_of_nat (n div 10) @ [''0123456789'' ! (n mod 10)])"
  by pat_completeness auto
termination
  by (relation "measure id") auto

definition PrefixID :: "Deployment \<Rightarrow> string" where
  "PrefixID depl = d_Prefix depl @ ''-'' @ string_of_nat (d_ID depl)"

text \<open>
  Modelled from the spec: \<^verbatim>\<open>Deployment.UpdateState\<close> (package \<^verbatim>\<open>deployment\<close> is missing).
  Sections 4.6 and 8 have it store the new state together with the deployment's
  \<^verbatim>\<open>error_message\<close>, and set \<^verbatim>\<open>deployed_at\<close> when the new state is \<^verbatim>\<open>deployed\<close>; it
  returns an error when the store fails, and then stores nothing.
\<close>

definition save_deployment :: "Deployment \<Rightarrow> database \<Rightarrow> database" where
  "save_deployment d D =
     D\<lparr>deployments := map (\<lambda>r. if d_ID r = d_ID d then d else r) (deployments D)\<rparr>"

definition UpdateState ::
  "env \<Rightarrow> handle \<Rightarrow> Deployment \<Rightarrow> deploy_state \<Rightarrow> world \<Rightarrow> world \<times> (string + Deployment)" where
  "UpdateState e h depl st w =
     (case attempt e (CallUpdateState (d_ID depl) st) w of
        (w1, Some msg) \<Rightarrow> (w1, Inl msg)
      | (w1, None) \<Rightarrow>
          (let depl' = depl\<lparr>d_State := st,
                            d_DeployedAt := (if st = StateDeployed then Some (time_now e)
                                             else d_DeployedAt depl)\<rparr>
           in (on_handle h (save_deployment depl') w1, Inr depl')))"

text \<open>
  Modelled from the spec: \<^verbatim>\<open>deployment.DeleteExceptLastN\<close> (missing), section 4.3:
  it soft-deletes the deployments of the project in state \<^verbatim>\<open>deployed\<close> that are older
  than the most recent N. Age is read off \<^verbatim>\<open>deployed_at\<close>.
\<close>

definition deployed_time :: "Deployment \<Rightarrow> int" where
  "deployed_time r = (case d_DeployedAt r of None \<Rightarrow> 0 | Some t \<Rightarrow> t)"

definition older_than_last_n :: "nat \<Rightarrow> nat \<Rightarrow> database \<Rightarrow> nat list" where
  "older_than_last_n pid n D =
     map d_ID (drop n (rev (sort_key deployed_time
       (filter (\<lambda>r. d_ProjectID r = pid \<and> d_State r = StateDeployed \<and> d_DeletedAt r = None)
          (deployments D)))))"

definition soft_delete :: "int \<Rightarrow> nat list \<Rightarrow> database \<Rightarrow> database" where
  "soft_delete now ids D =
     D\<lparr>deployments :=
         map (\<lambda>r. if d_ID r \<in> set ids then r\<lparr>d_DeletedAt := Some now\<rparr> else r) (deployments D)\<rparr>"

definition DeleteExceptLastN :: "env \<Rightarrow> nat \<Rightarrow> int \<Rightarrow> world \<Rightarrow> world \<times> string option" where
  "DeleteExceptLastN e pid n w =
     (case attempt e (CallDeleteExceptLastN pid n) w of
        (w1, Some msg) \<Rightarrow> (w1, Some msg)
      | (w1, None) \<Rightarrow>
          (on_handle OnTx (\<lambda>D. soft_delete (time_now e) (older_than_last_n pid (nat n) D) D) w1,
           None))"

text \<open>
  Modelled from the spec: \<^verbatim>\<open>Project.DomainNames\<close> (package \<^verbatim>\<open>project\<close> is missing),
  section 4.6: the domain names associated with the project.
\<close>

definition domain_names :: "Project \<Rightarrow> database \<Rightarrow> string list" where
  "domain_names proj D = map snd (filter (\<lambda>x. fst x = p_ID proj) (domains D))"

definition DomainNames :: "env \<Rightarrow> Project \<Rightarrow> world \<Rightarrow> world \<times> (string + string list)" where
  "DomainNames e proj w =
     (case attempt e (CallDomainNames (p_ID proj)) w of
        (w1, Some msg) \<Rightarrow> (w1, Inl msg)
      | (w1, None) \<Rightarrow> (w1, Inr (domain_names proj (db w1))))"

text \<open>Line 312: the update of \<^verbatim>\<open>active_deployment_id\<close> on the project's row.\<close>

definition set_active :: "nat \<Rightarrow> nat \<Rightarrow> database \<Rightarrow> database" where
  "set_active pid did D =
     D\<lparr>projects :=
         map (\<lambda>p. if p_ID p = pid then p\<lparr>p_ActiveDeploymentID := Some did\<rparr> else p) (projects D)\<rparr>"

text \<open>
  \<^verbatim>\<open>json.Unmarshal\<close> into a \<^verbatim>\<open>map[string]string\<close> (line 244). A string is stored, \<^verbatim>\<open>null\<close>
  leaves the zero value, any other value is an \<^verbatim>\<open>UnmarshalTypeError\<close>; a document that
  is not an object (and not \<^verbatim>\<open>null\<close>) is one too.
\<close>

fun unmarshal_string :: "json \<Rightarrow> error + string" where
  "unmarshal_string (JString s) = Inr s"
| "unmarshal_string JNull = Inr []"
| "unmarshal_string _ = Inl ErrUnmarshalType"

fun unmarshal_members :: "(string \<times> json) list \<Rightarrow> error + (string \<times> string) list" where
  "unmarshal_members [] = Inr []"
| "unmarshal_members ((k, v) # kvs) =
     (case unmarshal_string v of
        Inl err \<Rightarrow> Inl err
      | Inr s \<Rightarrow> (case unmarshal_members kvs of
                   Inl err \<Rightarrow> Inl err
                 | Inr m \<Rightarrow> Inr ((k, s) # m)))"

fun unmarshal_string_map :: "json \<Rightarrow> error + (string \<times> string) list" where
  "unmarshal_string_map JNull = Inr []"
| "unmarshal_string_map (JObject kvs) = unmarshal_members kvs"
| "unmarshal_string_map _ = Inl ErrUnmarshalType"

definition Unmarshal_envvars :: "env \<Rightarrow> bytes \<Rightarrow> error + (string \<times> string) list" where
  "Unmarshal_envvars e b =
     (case json_decode e b of
        None \<Rightarrow> Inl ErrJSONSyntax
      | Some j \<Rightarrow> unmarshal_string_map j)"

subsection \<open>The extraction goroutine (lines 164-227)\<close>

text \<open>Lines 207-209: when an entry goes through the watermark injector.\<close>

definition watermark_eligible :: "Project \<Rightarrow> string \<Rightarrow> Header \<Rightarrow> bool" where
  "watermark_eligible proj contentType hdr \<longleftrightarrow>
     p_Watermark proj \<and> contentType = ''text/html'' \<and> h_Size hdr \<le>s MaxFileSizeToWatermark"

text \<open>
  One iteration of the loop for an entry \<^verbatim>\<open>tr.Next()\<close> delivered (lines 175-223). The
  result is the error sent on \<^verbatim>\<open>errCh\<close>, or \<open>None\<close> when the loop goes on.
\<close>

definition upload_entry :: "env \<Rightarrow> Project \<Rightarrow> string \<Rightarrow> Header \<Rightarrow> world \<Rightarrow> world \<times> error option" where
  "upload_entry e proj webroot hdr w =
     (if h_IsDir hdr then (w, None)
      else
        let fileName = path_Clean (h_Name hdr);
            remotePath = webroot @ ''/'' @ fileName
        in if \<not> isValidFileName fileName then
             (record_call (Log (LogInvalidFilename fileName)) w, None)
           else
             let contentType = contentType_of e fileName
             in if watermark_eligible proj contentType hdr then
                  (let w1 = record_call (InjectWatermark (h_Name hdr)) w
                   in case injectWatermark e (h_Body hdr) of
                        Inl msg \<Rightarrow>
                          (record_call (Log (LogWatermarkFailed (h_Name hdr) msg)) w1, None)
                      | Inr rdr \<Rightarrow>
                          (case attempt e (Upload remotePath rdr contentType ''public-read'') w1 of
                             (w2, Some msg) \<Rightarrow> (w2, Some (ErrCollaborator msg))
                           | (w2, None) \<Rightarrow> (w2, None)))
                else
                  (case attempt e (Upload remotePath (h_Body hdr) contentType ''public-read'') w of
                     (w2, Some msg) \<Rightarrow> (w2, Some (ErrCollaborator msg))
                   | (w2, None) \<Rightarrow> (w2, None)))"

text \<open>
  The loop and the \<^verbatim>\<open>select\<close> that waits for it (lines 229-241). The first argument is
  what is left of the timer, counted in \<^verbatim>\<open>tr.Next()\<close> calls: at \<open>Some 0\<close> the timer wins
  the \<^verbatim>\<open>select\<close>. What the abandoned goroutine still does after that is not part of the
  trace.
\<close>

datatype loop_result = LoopDone | LoopErr error | LoopTimeout

fun upload_loop ::
  "env \<Rightarrow> Project \<Rightarrow> string \<Rightarrow> nat option \<Rightarrow> tar_item list \<Rightarrow> world \<Rightarrow> world \<times> loop_result" where
  "upload_loop e proj webroot t [] w =
     (if t = Some 0 then (w, LoopTimeout) else (w, LoopDone))"
| "upload_loop e proj webroot t (item # rest) w =
     (if t = Some 0 then (w, LoopTimeout)
      else case item of
             TarError msg \<Rightarrow> (w, LoopErr (ErrCollaborator msg))
           | Entry hdr \<Rightarrow>
               (case upload_entry e proj webroot hdr w of
                  (w1, Some err) \<Rightarrow> (w1, LoopErr err)
                | (w1, None) \<Rightarrow>
                    upload_loop e proj webroot (map_option (\<lambda>n. n - 1) t) rest w1))"

subsection \<open>\<^verbatim>\<open>Work\<close>, from its last lines to its first\<close>

text \<open>
  Each \<^verbatim>\<open>defer\<close> of the source runs when \<^verbatim>\<open>Work\<close> returns, the last one registered
  first. So the code after a \<^verbatim>\<open>defer\<close> is a function of its own here, and the deferred
  call is applied to the world it returns, whatever its result.
\<close>

text \<open>
  Line 333, \<^verbatim>\<open>depl.DeployedAt.Sub(depl.CreatedAt)\<close>: \<^verbatim>\<open>time.Time.Sub\<close> yields a
  \<^verbatim>\<open>Duration\<close>, an \<^verbatim>\<open>int64\<close> of nanoseconds, and saturates at its two ends. Line 339,
  \<^verbatim>\<open>int64(timeTaken / time.Second)\<close>: Go's integer division truncates towards zero.
\<close>

definition Time_Sub :: "int \<Rightarrow> int \<Rightarrow> int" where
  "Time_Sub t u =
     (if t - u < - (2 ^ 63) then - (2 ^ 63)
      else if t - u > 2 ^ 63 - 1 then 2 ^ 63 - 1
      else t - u)"

definition duration_seconds :: "int \<Rightarrow> int" where
  "duration_seconds d =
     (if d < 0 then - ((- d) div 1000000000) else d div 1000000000)"

text \<open>
  Lines 328-348: the analytics event; errors are swallowed. The block is reached only
  after \<^verbatim>\<open>UpdateState\<close> has set \<^verbatim>\<open>deployed_at\<close>.
\<close>

definition post_commit :: "env \<Rightarrow> Deployment \<Rightarrow> Project \<Rightarrow> world \<Rightarrow> world" where
  "post_commit e depl proj w =
     (case attempt e (FirstUser (d_UserID depl)) w of
        (w1, Some msg) \<Rightarrow> w1
      | (w1, None) \<Rightarrow>
          (case find (\<lambda>u. u = d_UserID depl) (users (db w1)) of
             None \<Rightarrow> w1
           | Some u \<Rightarrow>
               (case attempt e
                       (Track u ''Project Deployed'' (p_Name proj) (d_ID depl) (d_Prefix depl)
                          (d_Version depl)
                          (duration_seconds (Time_Sub (deployed_time depl) (d_CreatedAt depl)))) w1 of
                  (w2, Some msg) \<Rightarrow> record_call (Log (LogTrackFailed u msg)) w2
                | (w2, None) \<Rightarrow> w2)))"

text \<open>Line 324: \<^verbatim>\<open>tx.Commit()\<close> makes the transaction's tables the database's.\<close>

definition commit :: "env \<Rightarrow> world \<Rightarrow> world \<times> string option" where
  "commit e w =
     (case attempt e Commit w of
        (w1, Some msg) \<Rightarrow> (w1, Some msg)
      | (w1, None) \<Rightarrow>
          (case tx w1 of
             None \<Rightarrow> (w1, None)
           | Some D \<Rightarrow> (w1\<lparr>db := D, tx := None\<rparr>, None)))"

text \<open>Lines 308-350: the statements after \<^verbatim>\<open>defer tx.Rollback()\<close>.\<close>

definition tx_body :: "env \<Rightarrow> Deployment \<Rightarrow> Project \<Rightarrow> world \<Rightarrow> world \<times> error option" where
  "tx_body e depl proj w =
     (case UpdateState e OnTx depl StateDeployed w of
        (w1, Inl msg) \<Rightarrow> (w1, Some (ErrCollaborator msg))
      | (w1, Inr depl1) \<Rightarrow>
          (case attempt e (UpdateActiveDeployment (p_ID proj) (d_ID depl1)) w1 of
             (w2, Some msg) \<Rightarrow> (w2, Some (ErrCollaborator msg))
           | (w2, None) \<Rightarrow>
               (case (if p_MaxDeploysKept proj > 0
                      then DeleteExceptLastN e (p_ID proj) (p_MaxDeploysKept proj)
                             (on_handle OnTx (set_active (p_ID proj) (d_ID depl1)) w2)
                      else (on_handle OnTx (set_active (p_ID proj) (d_ID depl1)) w2, None)) of
                  (w3, Some msg) \<Rightarrow> (w3, Some (ErrCollaborator msg))
                | (w3, None) \<Rightarrow>
                    (case commit e w3 of
                       (w4, Some msg) \<Rightarrow> (w4, Some (ErrCollaborator msg))
                     | (w4, None) \<Rightarrow> (post_commit e depl1 proj w4, None)))))"

text \<open>The deferred \<^verbatim>\<open>tx.Rollback()\<close> (line 306): what is left of the transaction is dropped.\<close>

definition rollback :: "world \<Rightarrow> world" where
  "rollback w = (record_call Rollback w)\<lparr>tx := None\<rparr>"

text \<open>Lines 302-306.\<close>

definition commit_phase :: "env \<Rightarrow> Deployment \<Rightarrow> Project \<Rightarrow> world \<Rightarrow> world \<times> error option" where
  "commit_phase e depl proj w =
     (case attempt e Begin w of
        (w1, Some msg) \<Rightarrow> (w1, Some (ErrCollaborator msg))
      | (w1, None) \<Rightarrow>
          (case tx_body e depl proj (w1\<lparr>tx := Some (db w1)\<rparr>) of
             (w2, r) \<Rightarrow> (rollback w2, r)))"

text \<open>
  Modelled from the spec: the constants \<^verbatim>\<open>exchanges.Edges\<close> and
  \<^verbatim>\<open>exchanges.RouteV1Invalidation\<close> (package \<^verbatim>\<open>exchanges\<close> is missing), section 6:
  exchange \<^verbatim>\<open>edges\<close>, routing key \<^verbatim>\<open>v1.invalidation\<close>.
\<close>

definition Edges :: string where
  "Edges = ''edges''"

definition RouteV1Invalidation :: string where
  "RouteV1Invalidation = ''v1.invalidation''"

text \<open>Lines 289-300.\<close>

definition invalidate :: "env \<Rightarrow> DeployJobData \<Rightarrow> string list \<Rightarrow> world \<Rightarrow> world \<times> error option" where
  "invalidate e d domainNames w =
     (if \<not> SkipInvalidation d then
        (case attempt e (NewMessage Edges RouteV1Invalidation domainNames) w of
           (w1, Some msg) \<Rightarrow> (w1, Some (ErrCollaborator msg))
         | (w1, None) \<Rightarrow>
             (case attempt e (Publish Edges RouteV1Invalidation domainNames) w1 of
                (w2, Some msg) \<Rightarrow> (w2, Some (ErrCollaborator msg))
              | (w2, None) \<Rightarrow> (w2, None)))
      else (w, None))"

text \<open>Lines 281-287: one \<^verbatim>\<open>meta.json\<close> per domain.\<close>

fun upload_meta :: "env \<Rightarrow> bytes \<Rightarrow> string list \<Rightarrow> world \<Rightarrow> world \<times> error option" where
  "upload_meta e metaJson [] w = (w, None)"
| "upload_meta e metaJson (domain # rest) w =
     (case attempt e (Upload (''domains/'' @ domain @ ''/meta.json'') metaJson
                        ''application/json'' ''public-read'') w of
        (w1, Some msg) \<Rightarrow> (w1, Some (ErrCollaborator msg))
      | (w1, None) \<Rightarrow> upload_meta e metaJson rest w1)"

text \<open>Lines 258-350: everything after the webroot block.\<close>

definition finish ::
  "env \<Rightarrow> DeployJobData \<Rightarrow> Deployment \<Rightarrow> Project \<Rightarrow> string \<Rightarrow> world \<Rightarrow> world \<times> error option" where
  "finish e d depl proj prefixID w =
     (case marshal_meta e \<lparr>m_Prefix = prefixID, m_ForceHTTPS = p_ForceHTTPS proj,
                           m_BasicAuthUsername = p_BasicAuthUsername proj,
                           m_BasicAuthPassword = p_EncryptedBasicAuthPassword proj\<rparr> of
        Inl msg \<Rightarrow> (w, Some (ErrCollaborator msg))
      | Inr metaJson \<Rightarrow>
          (case DomainNames e proj w of
             (w1, Inl msg) \<Rightarrow> (w1, Some (ErrCollaborator msg))
           | (w1, Inr domainNames) \<Rightarrow>
               (case upload_meta e metaJson domainNames w1 of
                  (w2, Some err) \<Rightarrow> (w2, Some err)
                | (w2, None) \<Rightarrow>
                    (case invalidate e d domainNames w2 of
                       (w3, Some err) \<Rightarrow> (w3, Some err)
                     | (w3, None) \<Rightarrow> commit_phase e depl proj w3))))"

text \<open>Lines 233-241: the timer won the \<^verbatim>\<open>select\<close>.\<close>

definition on_timeout :: "env \<Rightarrow> Deployment \<Rightarrow> string \<Rightarrow> world \<Rightarrow> world \<times> error option" where
  "on_timeout e depl prefixID w =
     (case UpdateState e OnDB (depl\<lparr>d_ErrorMessage := Some ''Timed out due to too many files''\<rparr>)
             StateDeployFailed w of
        (w1, Inl msg) \<Rightarrow> (record_call (Log (LogUpdateStateFailed prefixID msg)) w1, Some ErrTimeout)
      | (w1, Inr depl1) \<Rightarrow> (w1, Some ErrTimeout))"

text \<open>Lines 243-255: the check of \<^verbatim>\<open>js_env_vars\<close> and the upload of \<^verbatim>\<open>jsenv.js\<close>.\<close>

definition upload_jsenv :: "env \<Rightarrow> Deployment \<Rightarrow> string \<Rightarrow> world \<Rightarrow> world \<times> error option" where
  "upload_jsenv e depl webroot w =
     (case Unmarshal_envvars e (d_JsEnvVars depl) of
        Inl err \<Rightarrow> (w, Some err)
      | Inr envvars \<Rightarrow>
          (case attempt e (Upload (webroot @ ''/jsenv.js'') (jsenvFormat (d_JsEnvVars depl))
                             ''application/javascript'' ''public-read'') w of
             (w1, Some msg) \<Rightarrow> (w1, Some (ErrCollaborator msg))
           | (w1, None) \<Rightarrow> (w1, None)))"

text \<open>Lines 155-350: the statements after \<^verbatim>\<open>defer gr.Close()\<close>.\<close>

definition extract_body ::
  "env \<Rightarrow> DeployJobData \<Rightarrow> Deployment \<Rightarrow> Project \<Rightarrow> string \<Rightarrow> string \<Rightarrow> world \<Rightarrow> world \<times> error option" where
  "extract_body e d depl proj prefixID bundlePath w =
     (let webroot = ''deployments/'' @ prefixID @ ''/webroot''
      in case upload_loop e proj webroot (timer e) (read_archive e (s3_object e bundlePath)) w of
           (w1, LoopErr err) \<Rightarrow> (w1, Some err)
         | (w1, LoopTimeout) \<Rightarrow> on_timeout e depl prefixID w1
         | (w1, LoopDone) \<Rightarrow>
             (case upload_jsenv e depl webroot w1 of
                (w2, Some err) \<Rightarrow> (w2, Some err)
              | (w2, None) \<Rightarrow> finish e d depl proj prefixID w2))"

text \<open>Lines 146-154, after the \<^verbatim>\<open>defer\<close> that closes and removes the temporary file.\<close>

definition download_body ::
  "env \<Rightarrow> DeployJobData \<Rightarrow> Deployment \<Rightarrow> Project \<Rightarrow> string \<Rightarrow> string \<Rightarrow> world \<Rightarrow> world \<times> error option" where
  "download_body e d depl proj prefixID bundlePath w =
     (case attempt e (Download bundlePath) w of
        (w1, Some msg) \<Rightarrow> (w1, Some (ErrCollaborator msg))
      | (w1, None) \<Rightarrow>
          (case attempt e GzipNewReader w1 of
             (w2, Some msg) \<Rightarrow> (w2, Some (ErrCollaborator msg))
           | (w2, None) \<Rightarrow>
               (case extract_body e d depl proj prefixID bundlePath w2 of
                  (w3, r) \<Rightarrow> (record_call GzipClose w3, r))))"

text \<open>Lines 124-135: which bundle to download.\<close>

definition bundle_path :: "env \<Rightarrow> DeployJobData \<Rightarrow> Deployment \<Rightarrow> string \<Rightarrow> world \<Rightarrow> world \<times> string" where
  "bundle_path e d depl prefixID w =
     (if UseRawBundle d then
        (case d_RawBundleID depl of
           Some bid \<Rightarrow>
             (case attempt e (FirstRawBundle bid) w of
                (w1, Some msg) \<Rightarrow> (w1, ''deployments/'' @ prefixID @ ''/optimized-bundle.tar.gz'')
              | (w1, None) \<Rightarrow>
                  (case find (\<lambda>b. b_ID b = bid) (rawbundles (db w1)) of
                     None \<Rightarrow> (w1, ''deployments/'' @ prefixID @ ''/optimized-bundle.tar.gz'')
                   | Some bun \<Rightarrow> (w1, b_UploadedPath bun)))
         | None \<Rightarrow> (w, ''deployments/'' @ prefixID @ ''/raw-bundle.tar.gz''))
      else (w, ''deployments/'' @ prefixID @ ''/optimized-bundle.tar.gz''))"

text \<open>Lines 111-350: the statements after the \<^verbatim>\<open>defer\<close> that unlocks the project.\<close>

definition locked_body ::
  "env \<Rightarrow> DeployJobData \<Rightarrow> Deployment \<Rightarrow> Project \<Rightarrow> world \<Rightarrow> world \<times> error option" where
  "locked_body e d depl proj w =
     (if d_State depl = StateUploaded \<or> d_State depl = StatePendingUpload then
        (w, Some errUnexpectedState)
      else
        let prefixID = PrefixID depl
        in if \<not> SkipWebrootUpload d then
             (if d_State depl = StateDeployed then (w, Some errUnexpectedState)
              else
                (case bundle_path e d depl prefixID w of
                   (w1, bundlePath) \<Rightarrow>
                     (case attempt e (TempFile (prefixID @ ''-optimized-bundle.tar.gz'')) w1 of
                        (w2, Some msg) \<Rightarrow> (w2, Some (ErrCollaborator msg))
                      | (w2, None) \<Rightarrow>
                          (case download_body e d depl proj prefixID bundlePath w2 of
                             (w3, r) \<Rightarrow>
                               (record_call (CloseRemoveTempFile
                                   (prefixID @ ''-optimized-bundle.tar.gz'')) w3, r)))))
           else finish e d depl proj prefixID w)"

text \<open>The deferred unlock (lines 105-109).\<close>

definition unlock :: "env \<Rightarrow> Project \<Rightarrow> world \<Rightarrow> world" where
  "unlock e proj w =
     (case attempt e (Unlock (p_ID proj)) w of
        (w1, Some msg) \<Rightarrow> record_call (Log (LogUnlockFailed (p_ID proj) msg)) w1
      | (w1, None) \<Rightarrow> w1)"

text \<open>
  \<^verbatim>\<open>Work\<close> (lines 75-109). A row that \<^verbatim>\<open>First\<close> does not find is the store's
  \<^verbatim>\<open>record not found\<close> error. The result is the final world and the error returned,
  \<open>None\<close> for \<^verbatim>\<open>nil\<close>.
\<close>

definition Work :: "env \<Rightarrow> bytes \<Rightarrow> world \<Rightarrow> world \<times> error option" where
  "Work e data w =
     (case unmarshal_job e data of
        Inl err \<Rightarrow> (w, Some err)
      | Inr d \<Rightarrow>
          (case attempt e DBOpen w of
             (w1, Some msg) \<Rightarrow> (w1, Some (ErrCollaborator msg))
           | (w1, None) \<Rightarrow>
               (case attempt e (FirstDeployment (DeploymentID d)) w1 of
                  (w2, Some msg) \<Rightarrow> (w2, Some (ErrCollaborator msg))
                | (w2, None) \<Rightarrow>
                    (case find (\<lambda>r. d_ID r = DeploymentID d) (deployments (db w2)) of
                       None \<Rightarrow> (w2, Some (ErrCollaborator ''record not found''))
                     | Some depl \<Rightarrow>
                         (case attempt e (FirstProject (d_ProjectID depl)) w2 of
                            (w3, Some msg) \<Rightarrow> (w3, Some (ErrCollaborator msg))
                          | (w3, None) \<Rightarrow>
                              (case find (\<lambda>p. p_ID p = d_ProjectID depl) (projects (db w3)) of
                                 None \<Rightarrow> (w3, Some (ErrCollaborator ''record not found''))
                               | Some proj \<Rightarrow>
                                   (case attempt e (Lock (p_ID proj)) w3 of
                                      (w4, Some msg) \<Rightarrow> (w4, Some (ErrCollaborator msg))
                                    | (w4, None) \<Rightarrow>
                                        (if \<not> lock_acquired e then (w4, Some ErrProjectLocked)
                                         else
                                           (case locked_body e d depl proj w4 of
                                              (w5, r) \<Rightarrow> (unlock e proj w5, r))))))))))"

subsection \<open>Vocabulary of the statements\<close>

text \<open>The calls a step added to the trace.\<close>

definition new_calls :: "world \<Rightarrow> world \<Rightarrow> call list" where
  "new_calls w w' = drop (length (trace w)) (trace w')"

fun is_Upload :: "call \<Rightarrow> bool" where
  "is_Upload (Upload k c t a) = True"
| "is_Upload _ = False"

text \<open>
  The calls of a run fall into three groups: those made up to the upload of the
  metadata (\<open>web_call\<close>), the two of the invalidation, and those of the commit block and
  of the deferred cleanup (\<open>end_call\<close>; \<open>cleanup_call\<close> are the ones that follow the
  commit). \<open>Unlock\<close> is in none of them: only \<^verbatim>\<open>Work\<close>'s own \<^verbatim>\<open>defer\<close> makes it.
\<close>

fun web_call :: "call \<Rightarrow> bool" where
  "web_call (FirstRawBundle i) = True"
| "web_call (TempFile n) = True"
| "web_call (Download k) = True"
| "web_call GzipNewReader = True"
| "web_call (InjectWatermark n) = True"
| "web_call (Upload k c t a) = True"
| "web_call (CallDomainNames i) = True"
| "web_call (Log l) = True"
| "web_call _ = False"

fun end_call :: "call \<Rightarrow> bool" where
  "end_call Begin = True"
| "end_call (CallUpdateState i s) = True"
| "end_call (UpdateActiveDeployment p i) = True"
| "end_call (CallDeleteExceptLastN p n) = True"
| "end_call Commit = True"
| "end_call Rollback = True"
| "end_call (FirstUser u) = True"
| "end_call (Track u ev name i p v s) = True"
| "end_call (Log l) = True"
| "end_call GzipClose = True"
| "end_call (CloseRemoveTempFile n) = True"
| "end_call _ = False"

fun cleanup_call :: "call \<Rightarrow> bool" where
  "cleanup_call Rollback = True"
| "cleanup_call (FirstUser u) = True"
| "cleanup_call (Track u ev name i p v s) = True"
| "cleanup_call (Log l) = True"
| "cleanup_call GzipClose = True"
| "cleanup_call (CloseRemoveTempFile n) = True"
| "cleanup_call _ = False"

text \<open>The two calls of the invalidation, and the calls of a transaction that commits.\<close>

definition new_message :: "string list \<Rightarrow> call" where
  "new_message doms = NewMessage Edges RouteV1Invalidation doms"

definition publish :: "string list \<Rightarrow> call" where
  "publish doms = Publish Edges RouteV1Invalidation doms"

definition inval_calls :: "DeployJobData \<Rightarrow> string list \<Rightarrow> call list" where
  "inval_calls d doms = (if SkipInvalidation d then [] else [new_message doms, publish doms])"

definition txn_calls :: "Deployment \<Rightarrow> Project \<Rightarrow> call list" where
  "txn_calls depl proj =
     [Begin, CallUpdateState (d_ID depl) StateDeployed,
      UpdateActiveDeployment (p_ID proj) (d_ID depl)] @
     (if p_MaxDeploysKept proj > 0
      then [CallDeleteExceptLastN (p_ID proj) (p_MaxDeploysKept proj)] else []) @
     [Commit]"

text \<open>What a committed transaction has done to the tables.\<close>

definition transaction_effect :: "env \<Rightarrow> Deployment \<Rightarrow> Project \<Rightarrow> database \<Rightarrow> database" where
  "transaction_effect e depl proj D =
     (let D1 = save_deployment
                 (depl\<lparr>d_State := StateDeployed, d_DeployedAt := Some (time_now e)\<rparr>) D;
          D2 = set_active (p_ID proj) (d_ID depl) D1
      in if p_MaxDeploysKept proj > 0
         then soft_delete (time_now e)
                (older_than_last_n (p_ID proj) (nat (p_MaxDeploysKept proj)) D2) D2
         else D2)"

text \<open>What the timeout branch stores when its update succeeds.\<close>

definition timed_out :: "Deployment \<Rightarrow> Deployment" where
  "timed_out depl =
     depl\<lparr>d_ErrorMessage := Some ''Timed out due to too many files'',
          d_State := StateDeployFailed\<rparr>"

text \<open>
  The shape of the calls a part of \<^verbatim>\<open>Work\<close> adds, split as \<open>pre @ mid @ post\<close>:
  \<open>mid\<close> is what was done of the invalidation, and a transaction is begun only after
  all of it.
\<close>

definition shape_ok :: "DeployJobData \<Rightarrow> string list \<Rightarrow> call list \<Rightarrow> call list \<Rightarrow> call list \<Rightarrow> bool" where
  "shape_ok d doms pre mid post \<longleftrightarrow>
     list_all web_call pre \<and> list_all end_call post \<and>
     (mid = [] \<or> mid = [new_message doms] \<or> mid = [new_message doms, publish doms]) \<and>
     (SkipInvalidation d \<longrightarrow> mid = []) \<and>
     (Begin \<in> set post \<longrightarrow> mid = inval_calls d doms)"

definition publish_ok ::
  "env \<Rightarrow> string list \<Rightarrow> call list \<Rightarrow> call list \<Rightarrow> call list \<Rightarrow> error option \<Rightarrow> bool" where
  "publish_ok e doms hist mid post r \<longleftrightarrow>
     (mid = [new_message doms, publish doms] \<longrightarrow>
        (\<forall>msg. fails e (hist @ [new_message doms]) (publish doms) = Some msg \<longrightarrow>
           r = Some (ErrCollaborator msg) \<and> Begin \<notin> set post))"

definition success_ok ::
  "env \<Rightarrow> DeployJobData \<Rightarrow> Deployment \<Rightarrow> Project \<Rightarrow> world \<Rightarrow> world \<Rightarrow> call list \<Rightarrow> call list \<Rightarrow> bool" where
  "success_ok e d depl proj w w' mid post \<longleftrightarrow>
     mid = inval_calls d (domain_names proj (db w)) \<and>
     (\<exists>post'. post = txn_calls depl proj @ post' \<and> list_all cleanup_call post') \<and>
     db w' = transaction_effect e depl proj (db w) \<and> tx w' = None"

definition failure_ok :: "world \<Rightarrow> world \<Rightarrow> error \<Rightarrow> call list \<Rightarrow> bool" where
  "failure_ok w w' err post \<longleftrightarrow>
     err \<noteq> errUnexpectedState \<and> err \<noteq> ErrProjectLocked \<and>
     (err \<noteq> ErrTimeout \<longrightarrow> db w' = db w) \<and>
     ((\<exists>i. CallUpdateState i StateDeployed \<in> set post) \<longrightarrow>
        Rollback \<in> set post \<and> tx w' = None)"

definition timeout_ok ::
  "env \<Rightarrow> Deployment \<Rightarrow> call list \<Rightarrow> world \<Rightarrow> world \<Rightarrow> call list \<Rightarrow> call list \<Rightarrow> bool" where
  "timeout_ok e depl hist w w' mid post \<longleftrightarrow>
     mid = [] \<and>
     (\<exists>post'. list_all cleanup_call post' \<and>
        (case fails e hist (CallUpdateState (d_ID depl) StateDeployFailed) of
           None \<Rightarrow>
             post = CallUpdateState (d_ID depl) StateDeployFailed # post' \<and>
             db w' = save_deployment (timed_out depl) (db w)
         | Some msg \<Rightarrow>
             post = CallUpdateState (d_ID depl) StateDeployFailed #
                    Log (LogUpdateStateFailed (PrefixID depl) msg) # post' \<and>
             db w' = db w))"

definition run_ok ::
  "env \<Rightarrow> DeployJobData \<Rightarrow> Deployment \<Rightarrow> Project \<Rightarrow> world \<Rightarrow> world \<Rightarrow> error option \<Rightarrow> bool" where
  "run_ok e d depl proj w w' r \<longleftrightarrow>
     (\<exists>pre mid post.
        trace w' = trace w @ pre @ mid @ post \<and>
        shape_ok d (domain_names proj (db w)) pre mid post \<and>
        publish_ok e (domain_names proj (db w)) (trace w @ pre) mid post r \<and>
        (case r of
           None \<Rightarrow> success_ok e d depl proj w w' mid post
         | Some err \<Rightarrow>
             failure_ok w w' err post \<and>
             (err = ErrTimeout \<longrightarrow> timeout_ok e depl (trace w @ pre) w w' mid post)))"

text \<open>
  The start of \<^verbatim>\<open>Work\<close> (lines 76-103): the job is decoded, both rows are found and the
  \<^verbatim>\<open>Lock\<close> call returns without error; \<open>after_lock\<close> is the world at that point.
\<close>

definition prelude_calls :: "DeployJobData \<Rightarrow> Deployment \<Rightarrow> Project \<Rightarrow> call list" where
  "prelude_calls d depl proj =
     [DBOpen, FirstDeployment (DeploymentID d), FirstProject (d_ProjectID depl), Lock (p_ID proj)]"

definition reaches_lock ::
  "env \<Rightarrow> bytes \<Rightarrow> world \<Rightarrow> DeployJobData \<Rightarrow> Deployment \<Rightarrow> Project \<Rightarrow> bool" where
  "reaches_lock e data w d depl proj \<longleftrightarrow>
     unmarshal_job e data = Inr d \<and>
     fails e (trace w) DBOpen = None \<and>
     fails e (trace w @ [DBOpen]) (FirstDeployment (DeploymentID d)) = None \<and>
     find (\<lambda>r. d_ID r = DeploymentID d) (deployments (db w)) = Some depl \<and>
     fails e (trace w @ [DBOpen, FirstDeployment (DeploymentID d)])
       (FirstProject (d_ProjectID depl)) = None \<and>
     find (\<lambda>p. p_ID p = d_ProjectID depl) (projects (db w)) = Some proj \<and>
     fails e (trace w @ [DBOpen, FirstDeployment (DeploymentID d), FirstProject (d_ProjectID depl)])
       (Lock (p_ID proj)) = None"

definition after_lock :: "world \<Rightarrow> DeployJobData \<Rightarrow> Deployment \<Rightarrow> Project \<Rightarrow> world" where
  "after_lock w d depl proj = w\<lparr>trace := trace w @ prelude_calls d depl proj\<rparr>"

definition acquires ::
  "env \<Rightarrow> bytes \<Rightarrow> world \<Rightarrow> DeployJobData \<Rightarrow> Deployment \<Rightarrow> Project \<Rightarrow> bool" where
  "acquires e data w d depl proj \<longleftrightarrow> reaches_lock e data w d depl proj \<and> lock_acquired e"

text \<open>
  The run gets as far as the extraction loop (lines 112-162): the lock is held, the
  state passes both checks, the webroot is not skipped, and the temporary file, the
  download and the gzip header succeed. \<open>before_loop\<close> is the world at that point with
  the bundle's key, \<open>loop_result\<close> what the loop and its \<^verbatim>\<open>select\<close> yield from there.
\<close>

definition before_loop :: "env \<Rightarrow> DeployJobData \<Rightarrow> Deployment \<Rightarrow> world \<Rightarrow> world \<times> string" where
  "before_loop e d depl w =
     (case bundle_path e d depl (PrefixID depl) w of
        (w1, bundlePath) \<Rightarrow>
          (w1\<lparr>trace := trace w1 @ [TempFile (PrefixID depl @ ''-optimized-bundle.tar.gz''),
                                   Download bundlePath, GzipNewReader]\<rparr>, bundlePath))"

definition reaches_loop ::
  "env \<Rightarrow> bytes \<Rightarrow> world \<Rightarrow> DeployJobData \<Rightarrow> Deployment \<Rightarrow> Project \<Rightarrow> bool" where
  "reaches_loop e data w d depl proj \<longleftrightarrow>
     acquires e data w d depl proj \<and> \<not> SkipWebrootUpload d \<and>
     d_State depl \<noteq> StateUploaded \<and> d_State depl \<noteq> StatePendingUpload \<and>
     d_State depl \<noteq> StateDeployed \<and>
     (case bundle_path e d depl (PrefixID depl) (after_lock w d depl proj) of
        (w1, bundlePath) \<Rightarrow>
          fails e (trace w1) (TempFile (PrefixID depl @ ''-optimized-bundle.tar.gz'')) = None \<and>
          fails e (trace w1 @ [TempFile (PrefixID depl @ ''-optimized-bundle.tar.gz'')])
            (Download bundlePath) = None \<and>
          fails e (trace w1 @ [TempFile (PrefixID depl @ ''-optimized-bundle.tar.gz''),
                               Download bundlePath]) GzipNewReader = None)"

definition loop_result ::
  "env \<Rightarrow> world \<Rightarrow> DeployJobData \<Rightarrow> Deployment \<Rightarrow> Project \<Rightarrow> world \<times> loop_result" where
  "loop_result e w d depl proj =
     (case before_loop e d depl (after_lock w d depl proj) of
        (w1, bundlePath) \<Rightarrow>
          upload_loop e proj (''deployments/'' @ PrefixID depl @ ''/webroot'') (timer e)
            (read_archive e (s3_object e bundlePath)) w1)"

text \<open>Further classes of calls and of JSON values used in the statements.\<close>

fun prelude_call :: "call \<Rightarrow> bool" where
  "prelude_call DBOpen = True"
| "prelude_call (FirstDeployment i) = True"
| "prelude_call (FirstProject i) = True"
| "prelude_call (Lock i) = True"
| "prelude_call _ = False"

fun tx_call :: "call \<Rightarrow> bool" where
  "tx_call Begin = True"
| "tx_call (CallUpdateState i s) = True"
| "tx_call (UpdateActiveDeployment p i) = True"
| "tx_call (CallDeleteExceptLastN p n) = True"
| "tx_call Commit = True"
| "tx_call _ = False"

fun is_Publish :: "call \<Rightarrow> bool" where
  "is_Publish (Publish x k ds) = True"
| "is_Publish _ = False"

fun is_NewMessage :: "call \<Rightarrow> bool" where
  "is_NewMessage (NewMessage x k ds) = True"
| "is_NewMessage _ = False"

fun is_Unlock :: "call \<Rightarrow> bool" where
  "is_Unlock (Unlock i) = True"
| "is_Unlock _ = False"

fun is_UpdateState :: "call \<Rightarrow> bool" where
  "is_UpdateState (CallUpdateState i s) = True"
| "is_UpdateState _ = False"

fun non_string :: "json \<Rightarrow> bool" where
  "non_string (JNumber n) = True"
| "non_string (JBool b) = True"
| "non_string (JArray xs) = True"
| "non_string (JObject kvs) = True"
| "non_string _ = False"

text \<open>What the deferred unlock adds to the trace, from the trace before it.\<close>

definition unlock_calls :: "env \<Rightarrow> Project \<Rightarrow> call list \<Rightarrow> call list" where
  "unlock_calls e proj hist =
     Unlock (p_ID proj) #
     (case fails e hist (Unlock (p_ID proj)) of
        None \<Rightarrow> []
      | Some msg \<Rightarrow> [Log (LogUnlockFailed (p_ID proj) msg)])"

text \<open>
  A path element that \<^verbatim>\<open>path.Clean\<close> copies as it is: not empty, without \<^verbatim>\<open>/\<close>, and
  neither \<^verbatim>\<open>.\<close> nor \<^verbatim>\<open>..\<close>.
\<close>

definition plain_element :: "string \<Rightarrow> bool" where
  "plain_element name \<longleftrightarrow>
     name \<noteq> [] \<and> CHR ''/'' \<notin> set name \<and> name \<noteq> ''.'' \<and> name \<noteq> ''..''"

subsection \<open>Concrete inputs\<close>

definition demo_project :: Project where
  "demo_project = \<lparr>p_ID = 1, p_Name = ''foo-bar-express'', p_Watermark = True, p_ForceHTTPS = False,
     p_BasicAuthUsername = None, p_EncryptedBasicAuthPassword = None, p_MaxDeploysKept = 0,
     p_ActiveDeploymentID = None\<rparr>"

definition demo_env :: env where
  "demo_env = \<lparr>fails = (\<lambda>tr c. None), unmarshal_job = (\<lambda>b. Inl ErrJSONSyntax), lock_acquired = True,
     s3_object = (\<lambda>k. []), read_archive = (\<lambda>b. []),
     TypeByExtension = (\<lambda>x. if x = ''.html'' then ''text/html; charset=utf-8'' else []),
     injectWatermark = (\<lambda>b. Inl ''no body tag''), json_decode = (\<lambda>b. None),
     marshal_meta = (\<lambda>m. Inr []), timer = None, time_now = 160\<rparr>"

definition demo_world :: world where
  "demo_world = \<lparr>db = \<lparr>deployments = [], projects = [], rawbundles = [], users = [], domains = []\<rparr>,
     tx = None, trace = []\<rparr>"

definition index_html :: Header where
  "index_html = \<lparr>h_Name = ''index.html'', h_IsDir = False, h_Size = 24, h_Body = ''<html>''\<rparr>"

definition evil_html :: Header where
  "evil_html = \<lparr>h_Name = ''../evil.html'', h_IsDir = False, h_Size = 24, h_Body = ''<html>''\<rparr>"

definition nested_evil_html :: Header where
  "nested_evil_html =
     \<lparr>h_Name = ''a/../../evil.html'', h_IsDir = False, h_Size = 24, h_Body = ''<html>''\<rparr>"

definition weird_html :: Header where
  "weird_html = \<lparr>h_Name = ''weird file!.html'', h_IsDir = False, h_Size = 24, h_Body = ''<html>''\<rparr>"

definition demo_job :: DeployJobData where
  "demo_job = \<lparr>DeploymentID = 7, SkipWebrootUpload = False, UseRawBundle = False,
     SkipInvalidation = False\<rparr>"

definition demo_deployment :: Deployment where
  "demo_deployment = \<lparr>d_ID = 7, d_ProjectID = 1, d_UserID = 3, d_Prefix = ''a1b2'', d_Version = 1,
     d_State = StatePendingDeploy, d_JsEnvVars = ''{}'', d_RawBundleID = None,
     d_ErrorMessage = None, d_CreatedAt = 100, d_DeployedAt = None, d_DeletedAt = None\<rparr>"

definition demo_db :: database where
  "demo_db = \<lparr>deployments = [demo_deployment], projects = [demo_project], rawbundles = [],
     users = [3], domains = [(1, ''foo-bar-express.rise.cloud'')]\<rparr>"

definition run_world :: world where
  "run_world = \<lparr>db = demo_db, tx = None, trace = []\<rparr>"

text \<open>
  An environment in which nothing fails: the archive holds \<^verbatim>\<open>index.html\<close>, the injector
  appends a marker, and the JSON decoder knows the two documents used below.
\<close>

definition run_env :: env where
  \<open>run_env = \<lparr>fails = (\<lambda>tr c. None), unmarshal_job = (\<lambda>b. Inr demo_job), lock_acquired = True,
     s3_object = (\<lambda>k. []), read_archive = (\<lambda>b. [Entry index_html]),
     TypeByExtension = (\<lambda>x. if x = ''.html'' then ''text/html; charset=utf-8'' else []),
     injectWatermark = (\<lambda>b. Inr (b @ ''<a>'')),
     json_decode = (\<lambda>b. if b = ''{}'' then Some (JObject [])
                         else if b = ''{"PORT":8080}''
                              then Some (JObject [(''PORT'', JNumber ''8080'')]) else None),
     marshal_meta = (\<lambda>m. Inr (m_Prefix m)), timer = None, time_now = 160\<rparr>\<close>

text \<open>The same run with the timer firing at once and the store refusing the update.\<close>

definition timeout_env :: env where
  "timeout_env = run_env\<lparr>timer := Some 0,
     fails := (\<lambda>tr c. if c = CallUpdateState 7 StateDeployFailed then Some ''db down'' else None)\<rparr>"

text \<open>The same database with a number among the deployment's environment variables.\<close>

definition port_deployment :: Deployment where
  \<open>port_deployment = demo_deployment\<lparr>d_JsEnvVars := ''{"PORT":8080}''\<rparr>\<close>

definition port_world :: world where
  "port_world = \<lparr>db = demo_db\<lparr>deployments := [port_deployment]\<rparr>, tx = None, trace = []\<rparr>"

text \<open>Variants: the lock is taken, the timer fires at once, the commit fails.\<close>

definition locked_env :: env where
  "locked_env = run_env\<lparr>lock_acquired := False\<rparr>"

definition slow_env :: env where
  "slow_env = run_env\<lparr>timer := Some 0\<rparr>"

definition commit_fails_env :: env where
  "commit_fails_env = run_env\<lparr>fails := (\<lambda>tr c. if c = Commit then Some ''boom'' else None)\<rparr>"

text \<open>A deployment that is already deployed, and a job that skips the webroot.\<close>

definition deployed_deployment :: Deployment where
  "deployed_deployment = demo_deployment\<lparr>d_State := StateDeployed\<rparr>"

definition deployed_world :: world where
  "deployed_world = \<lparr>db = demo_db\<lparr>deployments := [deployed_deployment]\<rparr>, tx = None, trace = []\<rparr>"

definition republish_job :: DeployJobData where
  "republish_job = demo_job\<lparr>SkipWebrootUpload := True\<rparr>"

definition republish_env :: env where
  "republish_env = run_env\<lparr>unmarshal_job := (\<lambda>b. Inr republish_job)\<rparr>"

section \<open>One archive entry\<close>

lemma isValidFileName_loop_iff:
  "isValidFileName_loop ps \<longleftrightarrow> (\<forall>p \<in> set ps. \<forall>c \<in> set p. key_safe c)"
  by (induction ps) (auto simp: MatchString_def)

lemma isValidFileName_iff:
  "isValidFileName f \<longleftrightarrow> (\<forall>p \<in> set (split_sep f). \<forall>c \<in> set p. key_safe c)"
  by (simp add: isValidFileName_def isValidFileName_loop_iff)

text \<open>
  C8. A non-directory entry with a valid name goes through the watermark injector exactly
  when the project's watermark flag is set, the content type of its extension, cut at the
  first \<^verbatim>\<open>;\<close>, is \<^verbatim>\<open>text/html\<close>, and its size is at most 5,000,000. When the injector
  fails the entry is logged and not uploaded, and the loop goes on (the result is \<open>None\<close>);
  when it succeeds its output is what is uploaded; an entry that is not routed is
  uploaded as it is.
\<close>

theorem watermark_routing:
  assumes "\<not> h_IsDir hdr" and "isValidFileName (path_Clean (h_Name hdr))"
  shows "(let fileName = path_Clean (h_Name hdr);
              contentType = takeWhile (\<lambda>c. c \<noteq> CHR '';'') (TypeByExtension e (Ext fileName));
              routed = (p_Watermark proj \<and> contentType = ''text/html'' \<and> sint (h_Size hdr) \<le> 5000000);
              res = upload_entry e proj webroot hdr w
          in (InjectWatermark (h_Name hdr) \<in> set (new_calls w (fst res)) \<longleftrightarrow> routed) \<and>
             (\<forall>msg. routed \<and> injectWatermark e (h_Body hdr) = Inl msg \<longrightarrow>
                snd res = None \<and>
                new_calls w (fst res) =
                  [InjectWatermark (h_Name hdr), Log (LogWatermarkFailed (h_Name hdr) msg)]) \<and>
             (\<forall>rdr. routed \<and> injectWatermark e (h_Body hdr) = Inr rdr \<longrightarrow>
                new_calls w (fst res) =
                  [InjectWatermark (h_Name hdr),
                   Upload (webroot @ ''/'' @ fileName) rdr contentType ''public-read'']) \<and>
             (\<not> routed \<longrightarrow>
                new_calls w (fst res) =
                  [Upload (webroot @ ''/'' @ fileName) (h_Body hdr) contentType ''public-read'']))"
  using assms
  by (auto simp: Let_def upload_entry_def watermark_eligible_def contentType_of_def
        MaxFileSizeToWatermark_def word_sle_eq record_call_def attempt_def new_calls_def
      split: sum.splits option.splits prod.splits)

theorem watermark_routing_witness:
  "\<not> h_IsDir index_html \<and> isValidFileName (path_Clean (h_Name index_html)) \<and>
   upload_entry demo_env demo_project ''deployments/a1b2-7/webroot'' index_html demo_world =
     (demo_world\<lparr>trace := [InjectWatermark ''index.html'',
                           Log (LogWatermarkFailed ''index.html'' ''no body tag'')]\<rparr>, None)"
proof -
  have h1: "\<not> h_IsDir index_html" by (simp add: index_html_def)
  have h2: "isValidFileName (path_Clean (h_Name index_html))"
    by (simp add: index_html_def path_Clean_def isValidFileName_def MatchString_def key_safe_def)
  have "snd (upload_entry demo_env demo_project ''deployments/a1b2-7/webroot'' index_html demo_world) = None \<and>
        new_calls demo_world (fst (upload_entry demo_env demo_project ''deployments/a1b2-7/webroot'' index_html demo_world)) =
          [InjectWatermark ''index.html'', Log (LogWatermarkFailed ''index.html'' ''no body tag'')]"
    using watermark_routing [OF h1 h2, of demo_env demo_project "''deployments/a1b2-7/webroot''" demo_world]
    by (simp add: Let_def index_html_def demo_env_def demo_project_def path_Clean_def Ext_def)
  then show ?thesis using h1 h2
    by (simp add: Let_def upload_entry_def index_html_def demo_env_def demo_project_def demo_world_def
          path_Clean_def Ext_def isValidFileName_def MatchString_def key_safe_def
          watermark_eligible_def contentType_of_def MaxFileSizeToWatermark_def word_sle_eq
          record_call_def)
qed

text \<open>
  C6, as the code has it. The name of a non-directory entry is cleaned and split at
  \<^verbatim>\<open>/\<close>. If an element has a character outside \<open>key_safe\<close>, the entry is logged and
  skipped. Otherwise exactly one upload is made, to
  \<^verbatim>\<open>deployments/<PrefixID>/webroot/<cleaned-path>\<close> with ACL \<^verbatim>\<open>public-read\<close>, unless the
  entry is routed through the watermark injector and the injector fails: then nothing is
  uploaded for it and the loop goes on.
\<close>

theorem entry_upload_key:
  assumes "\<not> h_IsDir hdr"
  shows "(let fileName = path_Clean (h_Name hdr);
              res = upload_entry e proj (''deployments/'' @ prefixID @ ''/webroot'') hdr w;
              safe = (\<forall>p \<in> set (split_sep fileName). \<forall>c \<in> set p. key_safe c);
              injector_fails = (watermark_eligible proj (contentType_of e fileName) hdr \<and>
                                (\<exists>msg. injectWatermark e (h_Body hdr) = Inl msg))
          in (\<not> safe \<longrightarrow>
                res = (w\<lparr>trace := trace w @ [Log (LogInvalidFilename fileName)]\<rparr>, None)) \<and>
             (safe \<and> \<not> injector_fails \<longrightarrow>
                (\<exists>content contentType.
                   filter is_Upload (new_calls w (fst res)) =
                     [Upload (''deployments/'' @ prefixID @ ''/webroot/'' @ fileName)
                        content contentType ''public-read''])) \<and>
             (safe \<and> injector_fails \<longrightarrow>
                filter is_Upload (new_calls w (fst res)) = [] \<and> snd res = None))"
  using assms
  unfolding Let_def isValidFileName_iff [symmetric]
  by (auto simp: Let_def upload_entry_def record_call_def attempt_def new_calls_def
      split: sum.splits option.splits prod.splits)

theorem entry_upload_key_witness:
  "\<not> h_IsDir weird_html \<and>
   upload_entry demo_env demo_project (''deployments/'' @ ''a1b2-7'' @ ''/webroot'') weird_html demo_world =
     (demo_world\<lparr>trace := [Log (LogInvalidFilename ''weird file!.html'')]\<rparr>, None)"
proof -
  have h1: "\<not> h_IsDir weird_html" by (simp add: weird_html_def)
  have h2: "\<not> (\<forall>p \<in> set (split_sep (path_Clean (h_Name weird_html))). \<forall>c \<in> set p. key_safe c)"
    by (simp add: weird_html_def path_Clean_def key_safe_def)
  show ?thesis
    using entry_upload_key [OF h1, of demo_env demo_project "''a1b2-7''" demo_world] h1 h2
    by (simp add: Let_def weird_html_def demo_world_def path_Clean_def)
qed

text \<open>
  C6 as stated fails: \<^verbatim>\<open>index.html\<close> has a valid name, the project has the watermark
  flag, the injector fails, and no object is uploaded for the entry.
\<close>

theorem entry_upload_counterexample:
  "\<not> h_IsDir index_html \<and> isValidFileName (path_Clean (h_Name index_html)) \<and>
   filter is_Upload (new_calls demo_world
     (fst (upload_entry demo_env demo_project ''deployments/a1b2-7/webroot'' index_html demo_world))) = [] \<and>
   snd (upload_entry demo_env demo_project ''deployments/a1b2-7/webroot'' index_html demo_world) = None"
  by (simp add: Let_def upload_entry_def index_html_def demo_env_def demo_project_def demo_world_def
        path_Clean_def Ext_def isValidFileName_def MatchString_def key_safe_def
        watermark_eligible_def contentType_of_def MaxFileSizeToWatermark_def word_sle_eq
        record_call_def new_calls_def)

text \<open>What \<^verbatim>\<open>path.Clean\<close> does with leading \<^verbatim>\<open>..\<close> elements of a relative name.\<close>

lemma backtrack_rev_plain: "CHR ''/'' \<notin> set xs \<Longrightarrow> backtrack_rev 0 xs = []"
  by (induction xs) auto

lemma backtrack_plain: "CHR ''/'' \<notin> set d \<Longrightarrow> backtrack 0 d = []"
  by (simp add: backtrack_def backtrack_rev_plain)

lemma takeWhile_plain:
  assumes "CHR ''/'' \<notin> set name" and "rest = [] \<or> hd rest = CHR ''/''"
  shows "takeWhile (\<lambda>x. x \<noteq> CHR ''/'') (name @ rest) = name"
    and "dropWhile (\<lambda>x. x \<noteq> CHR ''/'') (name @ rest) = rest"
proof -
  have t: "takeWhile (\<lambda>x. x \<noteq> CHR ''/'') rest = []" and d: "dropWhile (\<lambda>x. x \<noteq> CHR ''/'') rest = rest"
    using assms(2) by (cases rest; simp)+
  have a: "\<forall>x \<in> set name. x \<noteq> CHR ''/''" using assms(1) by auto
  show "takeWhile (\<lambda>x. x \<noteq> CHR ''/'') (name @ rest) = name"
    using a t by (simp add: takeWhile_append2)
  show "dropWhile (\<lambda>x. x \<noteq> CHR ''/'') (name @ rest) = rest"
    using a d by (simp add: dropWhile_append2)
qed

lemma clean_loop_plain:
  assumes "plain_element name" and "rest = [] \<or> hd rest = CHR ''/''"
  shows "clean_loop rooted dotdot out (name @ rest) =
         clean_loop rooted dotdot
           ((if rooted \<and> length out \<noteq> 1 \<or> \<not> rooted \<and> length out \<noteq> 0 then out @ ''/'' else out) @ name)
           rest"
proof -
  from assms(1) obtain c cs where n: "name = c # cs"
    by (cases name) (auto simp: plain_element_def)
  from assms(1) n have ns: "CHR ''/'' \<notin> set (c # cs)" and c: "c \<noteq> CHR ''/''"
    and nd: "c # cs \<noteq> ''.''" and ndd: "c # cs \<noteq> ''..''"
    by (auto simp: plain_element_def)
  have b2: "\<not> (c = CHR ''.'' \<and> (cs @ rest = [] \<or> hd (cs @ rest) = CHR ''/''))"
  proof (cases cs)
    case Nil
    with nd show ?thesis by auto
  next
    case (Cons x xs)
    with ns show ?thesis by auto
  qed
  have b3: "\<not> (c = CHR ''.'' \<and> hd (cs @ rest) = CHR ''.'' \<and>
               (tl (cs @ rest) = [] \<or> hd (tl (cs @ rest)) = CHR ''/''))"
  proof (cases cs)
    case Nil
    with nd show ?thesis by auto
  next
    case (Cons x xs)
    show ?thesis
    proof (cases xs)
      case Nil
      with Cons ndd show ?thesis by auto
    next
      case (Cons y ys)
      with \<open>cs = x # xs\<close> ns show ?thesis by auto
    qed
  qed
  have tk: "takeWhile (\<lambda>x. x \<noteq> CHR ''/'') (c # cs @ rest) = c # cs"
    and dr: "dropWhile (\<lambda>x. x \<noteq> CHR ''/'') (c # cs @ rest) = rest"
    using takeWhile_plain [OF ns assms(2)] by simp_all
  show ?thesis
    unfolding n append_Cons
    by (subst clean_loop.simps(2)) (simp only: c b2 b3 if_False tk dr Let_def)
qed

lemma clean_dotdot_prefix:
  assumes "plain_element name"
  shows "path_Clean (''../'' @ name) = ''../'' @ name"
proof -
  have "clean_loop False (Suc (Suc 0)) ''..'' name = ''../'' @ name"
    using clean_loop_plain [OF assms, of "[]" False "Suc (Suc 0)" "''..''"] by simp
  then show ?thesis
    by (simp add: path_Clean_def Let_def)
qed

lemma clean_dotdot_nested:
  assumes "plain_element d" and "plain_element name"
  shows "path_Clean (d @ ''/../../'' @ name) = ''../'' @ name"
proof -
  from assms(1) have d: "d \<noteq> []" "hd d \<noteq> CHR ''/''" "CHR ''/'' \<notin> set d"
    by (cases d; auto simp: plain_element_def)+
  have 1: "clean_loop False 0 [] (d @ ''/../../'' @ name) = clean_loop False 0 d (''/../../'' @ name)"
    using clean_loop_plain [OF assms(1), of "''/../../'' @ name" False 0 "[]"] by simp
  have 2: "clean_loop False 0 d (''/../../'' @ name) = clean_loop False (Suc (Suc 0)) ''..'' name"
    using d by (simp add: backtrack_plain Let_def)
  have 3: "clean_loop False (Suc (Suc 0)) ''..'' name = ''../'' @ name"
    using clean_loop_plain [OF assms(2), of "[]" False "Suc (Suc 0)" "''..''"] by simp
  show ?thesis
    using d 1 2 3 by (simp add: path_Clean_def Let_def)
qed

text \<open>
  C9, as the code has it. The element \<^verbatim>\<open>..\<close> passes the filter. A non-directory entry
  whose cleaned name has a \<^verbatim>\<open>..\<close> element and only characters of \<open>key_safe\<close> is
  therefore not skipped by the filter; it is uploaded to
  \<^verbatim>\<open>deployments/<PrefixID>/webroot/<cleaned-name>\<close> with ACL \<^verbatim>\<open>public-read\<close>, unless it is
  routed through the watermark injector and the injector fails: then it is logged and
  nothing is uploaded for it. \<^verbatim>\<open>path.Clean\<close> keeps such names: \<^verbatim>\<open>../<name>\<close> stays as it
  is and \<^verbatim>\<open><d>/../../<name>\<close> becomes \<^verbatim>\<open>../<name>\<close>, so the key is
  \<^verbatim>\<open>deployments/<PrefixID>/webroot/../<name>\<close>, outside the deployment's webroot.
\<close>

theorem dotdot_entry_uploaded:
  assumes "\<not> h_IsDir hdr"
    and "''..'' \<in> set (split_sep (path_Clean (h_Name hdr)))"
    and "\<forall>p \<in> set (split_sep (path_Clean (h_Name hdr))). \<forall>c \<in> set p. key_safe c"
  shows "\<not> MatchString ''..'' \<and>
         isValidFileName (path_Clean (h_Name hdr)) \<and>
         (let fileName = path_Clean (h_Name hdr);
              res = upload_entry e proj (''deployments/'' @ prefixID @ ''/webroot'') hdr w;
              routed = watermark_eligible proj (contentType_of e fileName) hdr
          in (\<forall>msg. routed \<and> injectWatermark e (h_Body hdr) = Inl msg \<longrightarrow>
                snd res = None \<and>
                new_calls w (fst res) =
                  [InjectWatermark (h_Name hdr), Log (LogWatermarkFailed (h_Name hdr) msg)]) \<and>
             (\<not> (routed \<and> (\<exists>msg. injectWatermark e (h_Body hdr) = Inl msg)) \<longrightarrow>
                (\<exists>content.
                   filter is_Upload (new_calls w (fst res)) =
                     [Upload (''deployments/'' @ prefixID @ ''/webroot/'' @ fileName) content
                        (contentType_of e fileName) ''public-read'']))) \<and>
         (\<forall>d name. plain_element d \<and> plain_element name \<longrightarrow>
            path_Clean (''../'' @ name) = ''../'' @ name \<and>
            path_Clean (d @ ''/../../'' @ name) = ''../'' @ name \<and>
            ''..'' \<in> set (split_sep (''../'' @ name)))"
proof -
  have m: "\<not> MatchString ''..''"
    by (simp add: MatchString_def key_safe_def)
  have v: "isValidFileName (path_Clean (h_Name hdr))"
    using assms(3) by (simp add: isValidFileName_iff)
  have s: "''..'' \<in> set (split_sep (''../'' @ name))" for name
    by (cases "split_sep name") simp_all
  have u: "let fileName = path_Clean (h_Name hdr);
              res = upload_entry e proj (''deployments/'' @ prefixID @ ''/webroot'') hdr w;
              routed = watermark_eligible proj (contentType_of e fileName) hdr
          in (\<forall>msg. routed \<and> injectWatermark e (h_Body hdr) = Inl msg \<longrightarrow>
                snd res = None \<and>
                new_calls w (fst res) =
                  [InjectWatermark (h_Name hdr), Log (LogWatermarkFailed (h_Name hdr) msg)]) \<and>
             (\<not> (routed \<and> (\<exists>msg. injectWatermark e (h_Body hdr) = Inl msg)) \<longrightarrow>
                (\<exists>content.
                   filter is_Upload (new_calls w (fst res)) =
                     [Upload (''deployments/'' @ prefixID @ ''/webroot/'' @ fileName) content
                        (contentType_of e fileName) ''public-read'']))"
    using assms(1) v
    by (auto simp: Let_def upload_entry_def record_call_def attempt_def new_calls_def
        split: sum.splits option.splits prod.splits)
  from m v u s clean_dotdot_prefix clean_dotdot_nested show ?thesis
    by blast
qed

text \<open>The entry \<^verbatim>\<open>a/../../evil.html\<close>, with an injector that succeeds.\<close>

theorem dotdot_entry_uploaded_witness:
  "\<not> h_IsDir nested_evil_html \<and>
   path_Clean (h_Name nested_evil_html) = ''../evil.html'' \<and>
   ''..'' \<in> set (split_sep (path_Clean (h_Name nested_evil_html))) \<and>
   filter is_Upload (new_calls demo_world
     (fst (upload_entry (demo_env\<lparr>injectWatermark := (\<lambda>b. Inr (b @ ''<a>''))\<rparr>) demo_project
        (''deployments/'' @ ''a1b2-7'' @ ''/webroot'') nested_evil_html demo_world))) =
   [Upload ''deployments/a1b2-7/webroot/../evil.html'' ''<html><a>'' ''text/html'' ''public-read'']"
proof -
  let ?e = "demo_env\<lparr>injectWatermark := (\<lambda>b. Inr (b @ ''<a>''))\<rparr>"
  have c: "path_Clean (h_Name nested_evil_html) = ''../evil.html''"
    by (simp add: nested_evil_html_def path_Clean_def backtrack_def)
  have h1: "\<not> h_IsDir nested_evil_html" by (simp add: nested_evil_html_def)
  have h2: "''..'' \<in> set (split_sep (path_Clean (h_Name nested_evil_html)))"
    unfolding c by simp
  have h3: "\<forall>p \<in> set (split_sep (path_Clean (h_Name nested_evil_html))). \<forall>c \<in> set p. key_safe c"
    unfolding c by (simp add: key_safe_def)
  have n: "\<not> (watermark_eligible demo_project (contentType_of ?e ''../evil.html'') nested_evil_html \<and>
              (\<exists>msg. injectWatermark ?e (h_Body nested_evil_html) = Inl msg))"
    by simp
  from dotdot_entry_uploaded [OF h1 h2 h3, of ?e demo_project "''a1b2-7''" demo_world] n
  obtain content where
    "filter is_Upload (new_calls demo_world
       (fst (upload_entry ?e demo_project (''deployments/'' @ ''a1b2-7'' @ ''/webroot'')
          nested_evil_html demo_world))) =
     [Upload (''deployments/'' @ ''a1b2-7'' @ ''/webroot/'' @ ''../evil.html'') content
        (contentType_of ?e ''../evil.html'') ''public-read'']"
    unfolding Let_def c by blast
  with h1 c h2 show ?thesis
    by (simp add: Let_def upload_entry_def nested_evil_html_def demo_env_def demo_project_def
          demo_world_def Ext_def isValidFileName_def MatchString_def key_safe_def
          watermark_eligible_def contentType_of_def MaxFileSizeToWatermark_def word_sle_eq
          record_call_def attempt_def new_calls_def)
qed

text \<open>
  C9 as stated fails: \<^verbatim>\<open>../evil.html\<close> in a project with the watermark flag, when the
  injector fails, passes the filter and is still not uploaded.
\<close>

theorem dotdot_entry_counterexample:
  "\<not> h_IsDir evil_html \<and>
   path_Clean (h_Name evil_html) = ''../evil.html'' \<and>
   isValidFileName (path_Clean (h_Name evil_html)) \<and>
   upload_entry demo_env demo_project ''deployments/a1b2-7/webroot'' evil_html demo_world =
     (demo_world\<lparr>trace := [InjectWatermark ''../evil.html'',
                           Log (LogWatermarkFailed ''../evil.html'' ''no body tag'')]\<rparr>, None) \<and>
   filter is_Upload (new_calls demo_world
     (fst (upload_entry demo_env demo_project ''deployments/a1b2-7/webroot'' evil_html
        demo_world))) = []"
  by (simp add: Let_def upload_entry_def evil_html_def demo_env_def demo_project_def demo_world_def
        path_Clean_def Ext_def isValidFileName_def MatchString_def key_safe_def
        watermark_eligible_def contentType_of_def MaxFileSizeToWatermark_def word_sle_eq
        record_call_def new_calls_def)

section \<open>Basic facts about calls\<close>

lemma attempt_simps [simp]:
  "trace (fst (attempt e c w)) = trace w @ [c]"
  "db (fst (attempt e c w)) = db w"
  "tx (fst (attempt e c w)) = tx w"
  "snd (attempt e c w) = fails e (trace w) c"
  by (simp_all add: attempt_def)

lemma attempt_eq:
  "attempt e c w = (w', r) \<longleftrightarrow> w' = w\<lparr>trace := trace w @ [c]\<rparr> \<and> r = fails e (trace w) c"
  by (auto simp: attempt_def)

lemma record_call_simps [simp]:
  "trace (record_call c w) = trace w @ [c]"
  "db (record_call c w) = db w"
  "tx (record_call c w) = tx w"
  by (simp_all add: record_call_def)

lemma upload_entry_facts:
  assumes "upload_entry e proj webroot hdr w = (w', r)"
  shows "\<exists>cs. trace w' = trace w @ cs \<and> list_all web_call cs \<and> db w' = db w \<and> tx w' = tx w \<and>
              (\<forall>err. r = Some err \<longrightarrow> (\<exists>m. err = ErrCollaborator m))"
  using assms
  by (auto simp: upload_entry_def Let_def attempt_eq
      split: if_splits sum.splits option.splits prod.splits)

lemma upload_loop_facts:
  assumes "upload_loop e proj webroot t items w = (w', r)"
  shows "\<exists>cs. trace w' = trace w @ cs \<and> list_all web_call cs \<and> db w' = db w \<and> tx w' = tx w \<and>
              (\<forall>err. r = LoopErr err \<longrightarrow> (\<exists>m. err = ErrCollaborator m))"
  using assms
proof (induction items arbitrary: t w)
  case Nil
  then show ?case by (auto split: if_splits)
next
  case (Cons item rest)
  show ?case
  proof (cases "t = Some 0")
    case True
    with Cons.prems show ?thesis by auto
  next
    case False
    show ?thesis
    proof (cases item)
      case (TarError msg)
      with False Cons.prems show ?thesis by auto
    next
      case (Entry hdr)
      obtain w1 r1 where u: "upload_entry e proj webroot hdr w = (w1, r1)"
        by (cases "upload_entry e proj webroot hdr w")
      from upload_entry_facts [OF u] obtain cs1 where
        c1: "trace w1 = trace w @ cs1" "list_all web_call cs1" "db w1 = db w" "tx w1 = tx w"
            "\<forall>err. r1 = Some err \<longrightarrow> (\<exists>m. err = ErrCollaborator m)"
        by blast
      show ?thesis
      proof (cases r1)
        case (Some err)
        with False Entry u Cons.prems c1 show ?thesis by auto
      next
        case None
        with False Entry u Cons.prems
        have "upload_loop e proj webroot (map_option (\<lambda>n. n - 1) t) rest w1 = (w', r)"
          by simp
        from Cons.IH [OF this] obtain cs2 where
          c2: "trace w' = trace w1 @ cs2" "list_all web_call cs2" "db w' = db w1" "tx w' = tx w1"
              "\<forall>err. r = LoopErr err \<longrightarrow> (\<exists>m. err = ErrCollaborator m)"
          by blast
        show ?thesis
          using c1 c2 by (intro exI [of _ "cs1 @ cs2"]) simp
      qed
    qed
  qed
qed

lemma upload_meta_facts:
  assumes "upload_meta e metaJson doms w = (w', r)"
  shows "\<exists>cs. trace w' = trace w @ cs \<and> list_all web_call cs \<and> db w' = db w \<and> tx w' = tx w \<and>
              (\<forall>err. r = Some err \<longrightarrow> (\<exists>m. err = ErrCollaborator m))"
  using assms
proof (induction doms arbitrary: w)
  case Nil
  then show ?case by auto
next
  case (Cons dom rest)
  show ?case
  proof (cases "fails e (trace w) (Upload (''domains/'' @ dom @ ''/meta.json'') metaJson ''application/json'' ''public-read'')")
    case (Some msg)
    with Cons.prems show ?thesis by (auto simp: attempt_def)
  next
    case None
    with Cons.prems have
      "upload_meta e metaJson rest (w\<lparr>trace := trace w @ [Upload (''domains/'' @ dom @ ''/meta.json'') metaJson ''application/json'' ''public-read'']\<rparr>) = (w', r)"
      by (simp add: attempt_def)
    from Cons.IH [OF this] show ?thesis by auto
  qed
qed


section \<open>The commit block\<close>

lemma commit_phase_facts:
  assumes "commit_phase e depl proj w = (w', r)"
  shows "\<exists>post. trace w' = trace w @ post \<and> list_all end_call post \<and>
           (case r of
              None \<Rightarrow>
                (\<exists>post'. post = txn_calls depl proj @ post' \<and> list_all cleanup_call post') \<and>
                db w' = transaction_effect e depl proj (db w) \<and> tx w' = None
            | Some err \<Rightarrow>
                (\<exists>m. err = ErrCollaborator m) \<and> db w' = db w \<and>
                ((\<exists>i. CallUpdateState i StateDeployed \<in> set post) \<longrightarrow>
                   Rollback \<in> set post \<and> tx w' = None))"
  using assms
  by (auto simp: commit_phase_def tx_body_def UpdateState_def DeleteExceptLastN_def commit_def
        post_commit_def rollback_def attempt_eq Let_def txn_calls_def transaction_effect_def
      split: if_splits sum.splits option.splits prod.splits)


section \<open>Composing the parts of a run\<close>

lemma cleanup_is_end: "cleanup_call c \<Longrightarrow> end_call c"
  by (cases c) simp_all

lemma list_all_cleanup_end: "list_all cleanup_call cs \<Longrightarrow> list_all end_call cs"
  by (induction cs) (auto simp: cleanup_is_end)

lemma cleanup_no_Begin: "list_all cleanup_call cs \<Longrightarrow> Begin \<notin> set cs"
  by (induction cs) auto

lemma cleanup_no_UpdateState: "list_all cleanup_call cs \<Longrightarrow> CallUpdateState i s \<notin> set cs"
  by (induction cs) auto

lemma web_no_Begin: "list_all web_call cs \<Longrightarrow> Begin \<notin> set cs"
  by (induction cs) auto

lemma run_ok_early:
  assumes "trace w' = trace w @ cs" and "list_all web_call cs" and "db w' = db w"
    and "err \<noteq> errUnexpectedState" and "err \<noteq> ErrProjectLocked" and "err \<noteq> ErrTimeout"
  shows "run_ok e d depl proj w w' (Some err)"
  unfolding run_ok_def
  using assms
  by (intro exI [of _ cs] exI [of _ "[]"])
     (simp add: shape_ok_def publish_ok_def failure_ok_def)

lemma run_ok_prepend:
  assumes "run_ok e d depl proj w1 w' r"
    and "trace w1 = trace w @ cs" and "list_all web_call cs" and "db w1 = db w"
  shows "run_ok e d depl proj w w' r"
proof -
  from assms(1) obtain pre mid post where
    t: "trace w' = trace w1 @ pre @ mid @ post"
    and s: "shape_ok d (domain_names proj (db w1)) pre mid post"
    and p: "publish_ok e (domain_names proj (db w1)) (trace w1 @ pre) mid post r"
    and c: "case r of
              None \<Rightarrow> success_ok e d depl proj w1 w' mid post
            | Some err \<Rightarrow> failure_ok w1 w' err post \<and>
                (err = ErrTimeout \<longrightarrow> timeout_ok e depl (trace w1 @ pre) w1 w' mid post)"
    unfolding run_ok_def by blast
  have t': "trace w' = trace w @ (cs @ pre) @ mid @ post"
    using t assms(2) by simp
  have s': "shape_ok d (domain_names proj (db w)) (cs @ pre) mid post"
    using s assms(3,4) by (simp add: shape_ok_def)
  have p': "publish_ok e (domain_names proj (db w)) (trace w @ cs @ pre) mid post r"
    using p assms(2,4) by simp
  have c': "case r of
              None \<Rightarrow> success_ok e d depl proj w w' mid post
            | Some err \<Rightarrow> failure_ok w w' err post \<and>
                (err = ErrTimeout \<longrightarrow> timeout_ok e depl (trace w @ cs @ pre) w w' mid post)"
  proof (cases r)
    case None
    with c show ?thesis by (simp add: success_ok_def assms(4))
  next
    case (Some err)
    with c show ?thesis
      by (simp add: failure_ok_def timeout_ok_def assms(2,4) cong: option.case_cong)
  qed
  show ?thesis
    unfolding run_ok_def
    using t' s' p' c' by (intro exI [of _ "cs @ pre"] exI [of _ mid] exI [of _ post]) simp
qed

lemma run_ok_append:
  assumes "run_ok e d depl proj w w1 r"
    and "trace w' = trace w1 @ cs" and "list_all cleanup_call cs"
    and "db w' = db w1" and "tx w' = tx w1"
  shows "run_ok e d depl proj w w' r"
proof -
  from assms(1) obtain pre mid post where
    t: "trace w1 = trace w @ pre @ mid @ post"
    and s: "shape_ok d (domain_names proj (db w)) pre mid post"
    and p: "publish_ok e (domain_names proj (db w)) (trace w @ pre) mid post r"
    and c: "case r of
              None \<Rightarrow> success_ok e d depl proj w w1 mid post
            | Some err \<Rightarrow> failure_ok w w1 err post \<and>
                (err = ErrTimeout \<longrightarrow> timeout_ok e depl (trace w @ pre) w w1 mid post)"
    unfolding run_ok_def by blast
  note nb = cleanup_no_Begin [OF assms(3)]
  note ne = list_all_cleanup_end [OF assms(3)]
  have nu: "\<And>i s. CallUpdateState i s \<notin> set cs"
    using cleanup_no_UpdateState [OF assms(3)] .
  have t': "trace w' = trace w @ pre @ mid @ (post @ cs)"
    using t assms(2) by simp
  have s': "shape_ok d (domain_names proj (db w)) pre mid (post @ cs)"
    using s nb ne by (simp add: shape_ok_def)
  have p': "publish_ok e (domain_names proj (db w)) (trace w @ pre) mid (post @ cs) r"
    using p nb by (simp add: publish_ok_def)
  have c': "case r of
              None \<Rightarrow> success_ok e d depl proj w w' mid (post @ cs)
            | Some err \<Rightarrow> failure_ok w w' err (post @ cs) \<and>
                (err = ErrTimeout \<longrightarrow> timeout_ok e depl (trace w @ pre) w w' mid (post @ cs))"
  proof (cases r)
    case None
    with c obtain post' where
      "post = txn_calls depl proj @ post'" "list_all cleanup_call post'"
      by (auto simp: success_ok_def)
    then have "post @ cs = txn_calls depl proj @ (post' @ cs) \<and> list_all cleanup_call (post' @ cs)"
      using assms(3) by simp
    then have "\<exists>q. post @ cs = txn_calls depl proj @ q \<and> list_all cleanup_call q"
      by blast
    with None c assms(4,5) show ?thesis
      by (simp add: success_ok_def)
  next
    case (Some err)
    have f: "failure_ok w w' err (post @ cs)"
      using c Some nu assms(4,5) by (auto simp: failure_ok_def)
    have "timeout_ok e depl (trace w @ pre) w w' mid (post @ cs)" if "err = ErrTimeout"
    proof -
      from c Some that have "timeout_ok e depl (trace w @ pre) w w1 mid post" by simp
      then obtain post' where m: "mid = []" and l: "list_all cleanup_call post'"
        and k: "case fails e (trace w @ pre) (CallUpdateState (d_ID depl) StateDeployFailed) of
                  None \<Rightarrow> post = CallUpdateState (d_ID depl) StateDeployFailed # post' \<and>
                          db w1 = save_deployment (timed_out depl) (db w)
                | Some msg \<Rightarrow> post = CallUpdateState (d_ID depl) StateDeployFailed #
                                Log (LogUpdateStateFailed (PrefixID depl) msg) # post' \<and>
                              db w1 = db w"
        unfolding timeout_ok_def by blast
      show ?thesis
        unfolding timeout_ok_def
        using m l k assms(3,4)
        by (intro conjI exI [of _ "post' @ cs"]) (auto split: option.splits)
    qed
    with f Some show ?thesis by simp
  qed
  show ?thesis
    unfolding run_ok_def
    using t' s' p' c' by (intro exI [of _ pre] exI [of _ mid] exI [of _ "post @ cs"]) simp
qed

lemma invalidate_facts:
  assumes "invalidate e d doms w = (w', r)"
  shows "\<exists>mid. trace w' = trace w @ mid \<and> db w' = db w \<and> tx w' = tx w \<and>
           (mid = [] \<or> mid = [new_message doms] \<or> mid = [new_message doms, publish doms]) \<and>
           (SkipInvalidation d \<longrightarrow> mid = []) \<and>
           (r = None \<longrightarrow> mid = inval_calls d doms) \<and>
           (\<forall>err. r = Some err \<longrightarrow> (\<exists>m. err = ErrCollaborator m)) \<and>
           (mid = [new_message doms, publish doms] \<longrightarrow>
              (case fails e (trace w @ [new_message doms]) (publish doms) of
                 None \<Rightarrow> r = None
               | Some msg \<Rightarrow> r = Some (ErrCollaborator msg)))"
  using assms
  by (auto simp: invalidate_def attempt_def new_message_def publish_def inval_calls_def
      split: if_splits option.splits)

lemma finish_run:
  assumes "finish e d depl proj prefixID w = (w', r)"
  shows "run_ok e d depl proj w w' r"
proof (cases "marshal_meta e \<lparr>m_Prefix = prefixID, m_ForceHTTPS = p_ForceHTTPS proj,
                 m_BasicAuthUsername = p_BasicAuthUsername proj,
                 m_BasicAuthPassword = p_EncryptedBasicAuthPassword proj\<rparr>")
  case (Inl msg)
  with assms have "w' = w" "r = Some (ErrCollaborator msg)"
    by (simp_all add: finish_def)
  then show ?thesis
    by (intro run_ok_early [where cs = "[]", THEN back_subst [where P = "\<lambda>x. run_ok e d depl proj w w' x"]]) simp_all
next
  case (Inr metaJson)
  let ?doms = "domain_names proj (db w)"
  let ?w1 = "w\<lparr>trace := trace w @ [CallDomainNames (p_ID proj)]\<rparr>"
  show ?thesis
  proof (cases "fails e (trace w) (CallDomainNames (p_ID proj))")
    case (Some msg)
    with assms Inr have "w' = ?w1" "r = Some (ErrCollaborator msg)"
      by (simp_all add: finish_def DomainNames_def attempt_def)
    then have "run_ok e d depl proj w w' (Some (ErrCollaborator msg))"
      by (intro run_ok_early [where cs = "[CallDomainNames (p_ID proj)]"]) simp_all
    with \<open>r = Some (ErrCollaborator msg)\<close> show ?thesis by simp
  next
    case None
    obtain w2 r2 where um: "upload_meta e metaJson ?doms ?w1 = (w2, r2)"
      by (cases "upload_meta e metaJson ?doms ?w1")
    from upload_meta_facts [OF um] obtain cs2 where
      c2: "trace w2 = trace ?w1 @ cs2" "list_all web_call cs2" "db w2 = db w" "tx w2 = tx w"
          "\<forall>err. r2 = Some err \<longrightarrow> (\<exists>m. err = ErrCollaborator m)"
      by auto
    show ?thesis
    proof (cases r2)
      case (Some err)
      with assms Inr None um have wr: "w' = w2" "r = Some err"
        by (simp_all add: finish_def DomainNames_def attempt_def)
      from c2 Some obtain m where "err = ErrCollaborator m" by blast
      with wr c2 have "run_ok e d depl proj w w' (Some err)"
        by (intro run_ok_early [where cs = "CallDomainNames (p_ID proj) # cs2"]) simp_all
      with wr show ?thesis by simp
    next
      case r2None: None
      obtain w3 r3 where iv: "invalidate e d ?doms w2 = (w3, r3)"
        by (cases "invalidate e d ?doms w2")
      from invalidate_facts [OF iv] obtain mid where
        c3: "trace w3 = trace w2 @ mid" "db w3 = db w2" "tx w3 = tx w2"
            "mid = [] \<or> mid = [new_message ?doms] \<or> mid = [new_message ?doms, publish ?doms]"
            "SkipInvalidation d \<longrightarrow> mid = []"
            "r3 = None \<longrightarrow> mid = inval_calls d ?doms"
            "\<forall>err. r3 = Some err \<longrightarrow> (\<exists>m. err = ErrCollaborator m)"
            "mid = [new_message ?doms, publish ?doms] \<longrightarrow>
               (case fails e (trace w2 @ [new_message ?doms]) (publish ?doms) of
                  None \<Rightarrow> r3 = None
                | Some msg \<Rightarrow> r3 = Some (ErrCollaborator msg))"
        by blast
      let ?pre = "CallDomainNames (p_ID proj) # cs2"
      have tr2: "trace w2 = trace w @ ?pre" using c2 by simp
      show ?thesis
      proof (cases r3)
        case (Some err)
        with assms Inr None um r2None iv have wr: "w' = w3" "r = Some err"
          by (simp_all add: finish_def DomainNames_def attempt_def)
        from c3 Some obtain m where em: "err = ErrCollaborator m" by blast
        have "trace w' = trace w @ ?pre @ mid @ []"
          using wr c3 tr2 by simp
        moreover have "shape_ok d ?doms ?pre mid []"
          using c2 c3 by (simp add: shape_ok_def)
        moreover have "publish_ok e ?doms (trace w @ ?pre) mid [] r"
          using c3(8) wr Some tr2 by (auto simp: publish_ok_def split: option.splits)
        moreover have "failure_ok w w' err []"
          using em wr c3 c2 by (simp add: failure_ok_def)
        ultimately show ?thesis
          unfolding run_ok_def using wr em
          by (intro exI [of _ ?pre] exI [of _ mid] exI [of _ "[]"]) simp
      next
        case r3None: None
        with assms Inr \<open>fails e (trace w) (CallDomainNames (p_ID proj)) = None\<close> um r2None iv
        have cp: "commit_phase e depl proj w3 = (w', r)"
          by (simp add: finish_def DomainNames_def attempt_def)
        from commit_phase_facts [OF cp] obtain post where
          c4: "trace w' = trace w3 @ post" "list_all end_call post"
              "case r of
                 None \<Rightarrow>
                   (\<exists>post'. post = txn_calls depl proj @ post' \<and> list_all cleanup_call post') \<and>
                   db w' = transaction_effect e depl proj (db w3) \<and> tx w' = None
               | Some err \<Rightarrow>
                   (\<exists>m. err = ErrCollaborator m) \<and> db w' = db w3 \<and>
                   ((\<exists>i. CallUpdateState i StateDeployed \<in> set post) \<longrightarrow>
                      Rollback \<in> set post \<and> tx w' = None)"
          by blast
        have midv: "mid = inval_calls d ?doms" using c3 r3None by simp
        have dbs: "db w3 = db w" using c3 c2 by simp
        have "trace w' = trace w @ ?pre @ mid @ post"
          using c4 c3 tr2 by simp
        moreover have "shape_ok d ?doms ?pre mid post"
          using c2 c3 c4 midv by (simp add: shape_ok_def)
        moreover have "publish_ok e ?doms (trace w @ ?pre) mid post r"
          using c3(8) r3None tr2 by (auto simp: publish_ok_def split: option.splits)
        moreover have "case r of
              None \<Rightarrow> success_ok e d depl proj w w' mid post
            | Some err \<Rightarrow> failure_ok w w' err post \<and>
                (err = ErrTimeout \<longrightarrow> timeout_ok e depl (trace w @ ?pre) w w' mid post)"
          using c4(3) midv dbs
          by (auto simp: success_ok_def failure_ok_def split: option.splits)
        ultimately show ?thesis
          unfolding run_ok_def
          by (intro exI [of _ ?pre] exI [of _ mid] exI [of _ post]) simp
      qed
    qed
  qed
qed

section \<open>The webroot block\<close>

lemma unmarshal_members_error: "unmarshal_members kvs = Inl err \<Longrightarrow> err = ErrUnmarshalType"
proof (induction kvs)
  case Nil
  then show ?case by simp
next
  case (Cons kv kvs)
  obtain k v where kv: "kv = (k, v)" by (cases kv)
  show ?case
  proof (cases "unmarshal_string v")
    case (Inl err')
    then have "err' = ErrUnmarshalType" by (cases v) simp_all
    with Cons.prems kv Inl show ?thesis by simp
  next
    case (Inr s)
    with Cons kv show ?thesis by (auto split: sum.splits)
  qed
qed

lemma unmarshal_members_non_string:
  "(k, v) \<in> set kvs \<Longrightarrow> non_string v \<Longrightarrow> unmarshal_members kvs = Inl ErrUnmarshalType"
proof (induction kvs)
  case Nil
  then show ?case by simp
next
  case (Cons kv kvs)
  obtain k' v' where kv: "kv = (k', v')" by (cases kv)
  show ?case
  proof (cases "unmarshal_string v'")
    case (Inl err')
    then have "err' = ErrUnmarshalType" by (cases v') simp_all
    with kv Inl show ?thesis by simp
  next
    case (Inr s)
    then have "\<not> non_string v'" by (cases v') simp_all
    with Cons.prems kv have "(k, v) \<in> set kvs" by auto
    from Cons.IH [OF this Cons.prems(2)] kv Inr show ?thesis by simp
  qed
qed

lemma Unmarshal_envvars_error:
  "Unmarshal_envvars e b = Inl err \<Longrightarrow> err = ErrJSONSyntax \<or> err = ErrUnmarshalType"
  unfolding Unmarshal_envvars_def
  by (cases "json_decode e b"; cases "the (json_decode e b)")
     (auto dest: unmarshal_members_error)

lemma upload_jsenv_facts:
  assumes "upload_jsenv e depl webroot w = (w', r)"
  shows "\<exists>cs. trace w' = trace w @ cs \<and> list_all web_call cs \<and> db w' = db w \<and> tx w' = tx w \<and>
           (\<forall>err. r = Some err \<longrightarrow>
              err \<noteq> errUnexpectedState \<and> err \<noteq> ErrProjectLocked \<and> err \<noteq> ErrTimeout)"
  using assms
  by (auto simp: upload_jsenv_def attempt_def split: sum.splits option.splits
      dest: Unmarshal_envvars_error)

lemma timed_out_update:
  "depl\<lparr>d_ErrorMessage := Some ''Timed out due to too many files'', d_State := StateDeployFailed,
         d_DeployedAt := d_DeployedAt depl\<rparr> = timed_out depl"
  by (simp add: timed_out_def)

lemma on_timeout_facts:
  assumes "on_timeout e depl prefixID w = (w', r)"
  shows "r = Some ErrTimeout \<and> tx w' = tx w \<and>
         (case fails e (trace w) (CallUpdateState (d_ID depl) StateDeployFailed) of
            None \<Rightarrow>
              trace w' = trace w @ [CallUpdateState (d_ID depl) StateDeployFailed] \<and>
              db w' = save_deployment (timed_out depl) (db w)
          | Some msg \<Rightarrow>
              trace w' = trace w @ [CallUpdateState (d_ID depl) StateDeployFailed,
                                    Log (LogUpdateStateFailed prefixID msg)] \<and>
              db w' = db w)"
  using assms
  by (auto simp: on_timeout_def UpdateState_def attempt_def timed_out_update Let_def
      split: option.splits)

lemma extract_body_run:
  assumes "extract_body e d depl proj (PrefixID depl) bundlePath w = (w', r)"
  shows "run_ok e d depl proj w w' r"
proof -
  let ?webroot = "''deployments/'' @ PrefixID depl @ ''/webroot''"
  obtain w1 lr where ul:
    "upload_loop e proj ?webroot (timer e) (read_archive e (s3_object e bundlePath)) w = (w1, lr)"
    by (cases "upload_loop e proj ?webroot (timer e) (read_archive e (s3_object e bundlePath)) w")
  from upload_loop_facts [OF ul] obtain cs where
    c1: "trace w1 = trace w @ cs" "list_all web_call cs" "db w1 = db w" "tx w1 = tx w"
        "\<forall>err. lr = LoopErr err \<longrightarrow> (\<exists>m. err = ErrCollaborator m)"
    by blast
  show ?thesis
  proof (cases lr)
    case (LoopErr err)
    with assms ul have wr: "w' = w1" "r = Some err"
      by (simp_all add: extract_body_def)
    from c1 LoopErr obtain m where "err = ErrCollaborator m" by blast
    with wr c1 have "run_ok e d depl proj w w' (Some err)"
      by (intro run_ok_early [where cs = cs]) simp_all
    with wr show ?thesis by simp
  next
    case LoopTimeout
    with assms ul have ot: "on_timeout e depl (PrefixID depl) w1 = (w', r)"
      by (simp add: extract_body_def)
    note f = on_timeout_facts [OF ot]
    let ?cu = "CallUpdateState (d_ID depl) StateDeployFailed"
    show ?thesis
    proof (cases "fails e (trace w1) ?cu")
      case None
      with f have g: "r = Some ErrTimeout" "trace w' = trace w1 @ [?cu]"
        "db w' = save_deployment (timed_out depl) (db w1)" by simp_all
      have "trace w' = trace w @ cs @ [] @ [?cu]" using g c1 by simp
      moreover have "shape_ok d (domain_names proj (db w)) cs [] [?cu]"
        using c1 by (simp add: shape_ok_def)
      moreover have "publish_ok e (domain_names proj (db w)) (trace w @ cs) [] [?cu] r"
        by (simp add: publish_ok_def)
      moreover have "failure_ok w w' ErrTimeout [?cu]"
        by (simp add: failure_ok_def)
      moreover have "timeout_ok e depl (trace w @ cs) w w' [] [?cu]"
        unfolding timeout_ok_def using None g c1
        by (intro conjI exI [of _ "[]"]) simp_all
      ultimately show ?thesis
        unfolding run_ok_def using g
        by (intro exI [of _ cs] exI [of _ "[]"] exI [of _ "[?cu]"]) simp
    next
      case (Some msg)
      let ?lg = "Log (LogUpdateStateFailed (PrefixID depl) msg)"
      from Some f have g: "r = Some ErrTimeout" "trace w' = trace w1 @ [?cu, ?lg]"
        "db w' = db w1" by simp_all
      have "trace w' = trace w @ cs @ [] @ [?cu, ?lg]" using g c1 by simp
      moreover have "shape_ok d (domain_names proj (db w)) cs [] [?cu, ?lg]"
        using c1 by (simp add: shape_ok_def)
      moreover have "publish_ok e (domain_names proj (db w)) (trace w @ cs) [] [?cu, ?lg] r"
        by (simp add: publish_ok_def)
      moreover have "failure_ok w w' ErrTimeout [?cu, ?lg]"
        by (simp add: failure_ok_def)
      moreover have "timeout_ok e depl (trace w @ cs) w w' [] [?cu, ?lg]"
        unfolding timeout_ok_def using Some g c1
        by (intro conjI exI [of _ "[]"]) simp_all
      ultimately show ?thesis
        unfolding run_ok_def using g
        by (intro exI [of _ cs] exI [of _ "[]"] exI [of _ "[?cu, ?lg]"]) simp
    qed
  next
    case LoopDone
    obtain w2 r2 where uj: "upload_jsenv e depl ?webroot w1 = (w2, r2)"
      by (cases "upload_jsenv e depl ?webroot w1")
    from upload_jsenv_facts [OF uj] obtain cs2 where
      c2: "trace w2 = trace w1 @ cs2" "list_all web_call cs2" "db w2 = db w1" "tx w2 = tx w1"
          "\<forall>err. r2 = Some err \<longrightarrow>
             err \<noteq> errUnexpectedState \<and> err \<noteq> ErrProjectLocked \<and> err \<noteq> ErrTimeout"
      by blast
    show ?thesis
    proof (cases r2)
      case (Some err)
      with assms ul LoopDone uj have wr: "w' = w2" "r = Some err"
        by (simp_all add: extract_body_def)
      with c1 c2 Some have "run_ok e d depl proj w w' (Some err)"
        by (intro run_ok_early [where cs = "cs @ cs2"]) simp_all
      with wr show ?thesis by simp
    next
      case None
      with assms ul LoopDone uj have "finish e d depl proj (PrefixID depl) w2 = (w', r)"
        by (simp add: extract_body_def)
      from finish_run [OF this] show ?thesis
        by (rule run_ok_prepend [where cs = "cs @ cs2"]) (simp_all add: c1 c2)
    qed
  qed
qed

lemma download_body_run:
  assumes "download_body e d depl proj (PrefixID depl) bundlePath w = (w', r)"
  shows "run_ok e d depl proj w w' r"
proof (cases "fails e (trace w) (Download bundlePath)")
  case (Some msg)
  with assms have wr: "w' = w\<lparr>trace := trace w @ [Download bundlePath]\<rparr>"
    "r = Some (ErrCollaborator msg)"
    by (simp_all add: download_body_def attempt_def)
  then have "run_ok e d depl proj w w' (Some (ErrCollaborator msg))"
    by (intro run_ok_early [where cs = "[Download bundlePath]"]) simp_all
  with wr show ?thesis by simp
next
  case None
  show ?thesis
  proof (cases "fails e (trace w @ [Download bundlePath]) GzipNewReader")
    case (Some msg)
    with assms None have wr: "w' = w\<lparr>trace := trace w @ [Download bundlePath, GzipNewReader]\<rparr>"
      "r = Some (ErrCollaborator msg)"
      by (simp_all add: download_body_def attempt_def)
    then have "run_ok e d depl proj w w' (Some (ErrCollaborator msg))"
      by (intro run_ok_early [where cs = "[Download bundlePath, GzipNewReader]"]) simp_all
    with wr show ?thesis by simp
  next
    case gz: None
    let ?w2 = "w\<lparr>trace := trace w @ [Download bundlePath, GzipNewReader]\<rparr>"
    obtain w3 r3 where eb: "extract_body e d depl proj (PrefixID depl) bundlePath ?w2 = (w3, r3)"
      by (cases "extract_body e d depl proj (PrefixID depl) bundlePath ?w2")
    with assms None gz have wr: "w' = record_call GzipClose w3" "r = r3"
      by (simp_all add: download_body_def attempt_def)
    have "run_ok e d depl proj w w3 r3"
      using extract_body_run [OF eb]
      by (rule run_ok_prepend [where cs = "[Download bundlePath, GzipNewReader]"]) simp_all
    then show ?thesis
      unfolding wr by (rule run_ok_append [where cs = "[GzipClose]"]) simp_all
  qed
qed

lemma bundle_path_facts:
  assumes "bundle_path e d depl prefixID w = (w', p)"
  shows "\<exists>cs. trace w' = trace w @ cs \<and> list_all web_call cs \<and> db w' = db w \<and> tx w' = tx w"
  using assms
  by (auto simp: bundle_path_def attempt_def split: if_splits option.splits)

lemma locked_body_run:
  assumes "locked_body e d depl proj w = (w', r)"
    and "d_State depl \<noteq> StateUploaded" and "d_State depl \<noteq> StatePendingUpload"
    and "SkipWebrootUpload d \<or> d_State depl \<noteq> StateDeployed"
  shows "run_ok e d depl proj w w' r"
proof (cases "SkipWebrootUpload d")
  case True
  with assms have "finish e d depl proj (PrefixID depl) w = (w', r)"
    by (simp add: locked_body_def)
  then show ?thesis by (rule finish_run)
next
  case False
  let ?tmp = "PrefixID depl @ ''-optimized-bundle.tar.gz''"
  obtain w1 bp where bpth: "bundle_path e d depl (PrefixID depl) w = (w1, bp)"
    by (cases "bundle_path e d depl (PrefixID depl) w")
  from bundle_path_facts [OF bpth] obtain cs where
    c1: "trace w1 = trace w @ cs" "list_all web_call cs" "db w1 = db w" "tx w1 = tx w"
    by blast
  show ?thesis
  proof (cases "fails e (trace w1) (TempFile ?tmp)")
    case (Some msg)
    with assms False bpth have wr: "w' = w1\<lparr>trace := trace w1 @ [TempFile ?tmp]\<rparr>"
      "r = Some (ErrCollaborator msg)"
      by (simp_all add: locked_body_def attempt_def)
    with c1 have "run_ok e d depl proj w w' (Some (ErrCollaborator msg))"
      by (intro run_ok_early [where cs = "cs @ [TempFile ?tmp]"]) simp_all
    with wr show ?thesis by simp
  next
    case None
    let ?w2 = "w1\<lparr>trace := trace w1 @ [TempFile ?tmp]\<rparr>"
    obtain w3 r3 where dl: "download_body e d depl proj (PrefixID depl) bp ?w2 = (w3, r3)"
      by (cases "download_body e d depl proj (PrefixID depl) bp ?w2")
    with assms False bpth None have wr: "w' = record_call (CloseRemoveTempFile ?tmp) w3" "r = r3"
      by (simp_all add: locked_body_def attempt_def)
    have "run_ok e d depl proj w w3 r3"
      using download_body_run [OF dl]
      by (rule run_ok_prepend [where cs = "cs @ [TempFile ?tmp]"]) (simp_all add: c1)
    then show ?thesis
      unfolding wr by (rule run_ok_append [where cs = "[CloseRemoveTempFile ?tmp]"]) simp_all
  qed
qed

section \<open>The start of Work\<close>

lemma unlock_facts:
  "trace (unlock e proj w) = trace w @ unlock_calls e proj (trace w)"
  "db (unlock e proj w) = db w"
  "tx (unlock e proj w) = tx w"
  by (simp_all add: unlock_def unlock_calls_def attempt_def split: option.splits)

lemma Work_not_acquired:
  assumes "reaches_lock e data w d depl proj" and "\<not> lock_acquired e"
  shows "Work e data w = (after_lock w d depl proj, Some ErrProjectLocked)"
  using assms
  by (simp add: Work_def reaches_lock_def after_lock_def prelude_calls_def attempt_def)

lemma Work_acquired:
  assumes "acquires e data w d depl proj"
  shows "Work e data w =
           (unlock e proj (fst (locked_body e d depl proj (after_lock w d depl proj))),
            snd (locked_body e d depl proj (after_lock w d depl proj)))"
  using assms
  by (simp add: Work_def acquires_def reaches_lock_def after_lock_def prelude_calls_def
        attempt_def split: prod.splits)

lemma Work_cases:
  assumes "Work e data w = (w', r)"
  shows "(\<exists>d depl proj. reaches_lock e data w d depl proj) \<or>
         (r \<noteq> None \<and> db w' = db w \<and> tx w' = tx w \<and>
          (\<exists>cs. trace w' = trace w @ cs \<and> list_all prelude_call cs))"
  using assms
  by (auto simp: Work_def reaches_lock_def attempt_def
      split: sum.splits option.splits if_splits prod.splits)

section \<open>Work as a whole\<close>

lemma new_calls_eq: "trace w' = trace w @ cs \<Longrightarrow> new_calls w w' = cs"
  by (simp add: new_calls_def)

lemma web_not_others:
  "web_call c \<Longrightarrow> \<not> is_Unlock c \<and> \<not> is_Publish c \<and> \<not> is_NewMessage c \<and> \<not> tx_call c \<and> c \<noteq> Begin"
  by (cases c) simp_all

lemma end_not_others:
  "end_call c \<Longrightarrow> \<not> is_Unlock c \<and> \<not> is_Publish c \<and> \<not> is_NewMessage c \<and> \<not> is_Upload c"
  by (cases c) simp_all

lemma cleanup_not_others:
  "cleanup_call c \<Longrightarrow> \<not> tx_call c \<and> \<not> is_Unlock c \<and> \<not> is_Publish c \<and> \<not> is_Upload c"
  by (cases c) simp_all

lemma prelude_not_others:
  "prelude_call c \<Longrightarrow>
     \<not> is_Unlock c \<and> \<not> is_Publish c \<and> \<not> is_NewMessage c \<and> \<not> tx_call c \<and> \<not> is_Upload c \<and>
     c \<noteq> Begin \<and> \<not> is_UpdateState c"
  by (cases c) simp_all

lemma run_ok_no_Unlock:
  assumes "run_ok e d depl proj w w' r"
  shows "\<exists>body. trace w' = trace w @ body \<and> list_all (\<lambda>c. \<not> is_Unlock c) body"
proof -
  from assms obtain pre mid post where
    t: "trace w' = trace w @ pre @ mid @ post"
    and s: "shape_ok d (domain_names proj (db w)) pre mid post"
    unfolding run_ok_def by blast
  from s have "mid = [] \<or> mid = [new_message (domain_names proj (db w))] \<or>
               mid = [new_message (domain_names proj (db w)), publish (domain_names proj (db w))]"
    by (simp add: shape_ok_def)
  then have "list_all (\<lambda>c. \<not> is_Unlock c) mid"
    by (auto simp: new_message_def publish_def)
  moreover from s have "list_all (\<lambda>c. \<not> is_Unlock c) pre" "list_all (\<lambda>c. \<not> is_Unlock c) post"
    by (auto simp: shape_ok_def list_all_iff dest: web_not_others end_not_others)
  ultimately have "list_all (\<lambda>c. \<not> is_Unlock c) pre" "list_all (\<lambda>c. \<not> is_Unlock c) post"
    "list_all (\<lambda>c. \<not> is_Unlock c) mid"
    by simp_all
  with t show ?thesis
    by (intro exI [of _ "pre @ mid @ post"]) simp
qed

lemma locked_body_rejects:
  assumes "d_State depl = StateUploaded \<or> d_State depl = StatePendingUpload \<or>
           (\<not> SkipWebrootUpload d \<and> d_State depl = StateDeployed)"
  shows "locked_body e d depl proj w = (w, Some errUnexpectedState)"
  using assms by (auto simp: locked_body_def Let_def)

lemma locked_body_accepts:
  assumes "\<not> (d_State depl = StateUploaded \<or> d_State depl = StatePendingUpload \<or>
              (\<not> SkipWebrootUpload d \<and> d_State depl = StateDeployed))"
  shows "run_ok e d depl proj w (fst (locked_body e d depl proj w))
           (snd (locked_body e d depl proj w))"
  using assms by (intro locked_body_run) auto

lemma run_ok_not_unexpected:
  "run_ok e d depl proj w w' r \<Longrightarrow> r \<noteq> Some errUnexpectedState"
  by (auto simp: run_ok_def failure_ok_def)

text \<open>
  C4. When the start of \<^verbatim>\<open>Work\<close> gets as far as a \<^verbatim>\<open>Lock\<close> call that returns without
  error: if the lock was not acquired, \<^verbatim>\<open>Work\<close> returns \<^verbatim>\<open>ErrProjectLocked\<close>, the
  database is untouched and the only calls made are the four of the start (no upload, no
  publish, no state update, no \<^verbatim>\<open>Unlock\<close>); if it was acquired, the calls of the run end
  with the deferred \<^verbatim>\<open>Unlock\<close> (followed by its log line when it fails), whatever the
  result, and no other \<^verbatim>\<open>Unlock\<close> is made.
\<close>

theorem lock_discipline:
  assumes "reaches_lock e data w d depl proj" and "Work e data w = (w', r)"
  shows "(\<not> lock_acquired e \<longrightarrow>
            r = Some ErrProjectLocked \<and> db w' = db w \<and>
            new_calls w w' = prelude_calls d depl proj \<and>
            list_all (\<lambda>c. \<not> is_Upload c \<and> \<not> is_Publish c \<and> \<not> is_UpdateState c \<and> \<not> is_Unlock c)
              (new_calls w w')) \<and>
         (lock_acquired e \<longrightarrow>
            (\<exists>body. new_calls w w' =
                      prelude_calls d depl proj @ body @
                      unlock_calls e proj (trace w @ prelude_calls d depl proj @ body) \<and>
                    list_all (\<lambda>c. \<not> is_Unlock c) body))"
proof (cases "lock_acquired e")
  case False
  from Work_not_acquired [OF assms(1) False] assms(2)
  have "w' = after_lock w d depl proj" "r = Some ErrProjectLocked" by simp_all
  with False show ?thesis
    by (simp add: after_lock_def new_calls_def prelude_calls_def)
next
  case True
  let ?w4 = "after_lock w d depl proj"
  let ?lb = "locked_body e d depl proj ?w4"
  from assms(1) True have "acquires e data w d depl proj" by (simp add: acquires_def)
  from Work_acquired [OF this] assms(2)
  have w': "w' = unlock e proj (fst ?lb)" by simp
  have "\<exists>body. trace (fst ?lb) = trace ?w4 @ body \<and> list_all (\<lambda>c. \<not> is_Unlock c) body"
  proof (cases "d_State depl = StateUploaded \<or> d_State depl = StatePendingUpload \<or>
                (\<not> SkipWebrootUpload d \<and> d_State depl = StateDeployed)")
    case True
    from locked_body_rejects [OF this] show ?thesis by simp
  next
    case False
    from locked_body_accepts [OF this] show ?thesis by (rule run_ok_no_Unlock)
  qed
  then obtain body where b: "trace (fst ?lb) = trace ?w4 @ body" "list_all (\<lambda>c. \<not> is_Unlock c) body"
    by blast
  have "trace w' = trace w @ prelude_calls d depl proj @ body @
          unlock_calls e proj (trace w @ prelude_calls d depl proj @ body)"
    using b w' by (simp add: unlock_facts after_lock_def)
  then have "new_calls w w' = prelude_calls d depl proj @ body @
          unlock_calls e proj (trace w @ prelude_calls d depl proj @ body)"
    by (rule new_calls_eq)
  with b True show ?thesis by blast
qed

text \<open>
  C2. Once the lock is held, \<^verbatim>\<open>Work\<close> returns \<^verbatim>\<open>errUnexpectedState\<close> exactly when the
  deployment's state is \<^verbatim>\<open>uploaded\<close> or \<^verbatim>\<open>pending_upload\<close>, or it is \<^verbatim>\<open>deployed\<close> and
  \<^verbatim>\<open>skip_webroot_upload\<close> is false; so with \<^verbatim>\<open>skip_webroot_upload\<close> true a deployed
  deployment is accepted. When it returns that error the database is unchanged and
  nothing was called after the lock but the deferred unlock: no upload, no state update.
\<close>

theorem state_guard:
  assumes "acquires e data w d depl proj" and "Work e data w = (w', r)"
  shows "(r = Some errUnexpectedState \<longleftrightarrow>
            d_State depl = StateUploaded \<or> d_State depl = StatePendingUpload \<or>
            (\<not> SkipWebrootUpload d \<and> d_State depl = StateDeployed)) \<and>
         (r = Some errUnexpectedState \<longrightarrow>
            db w' = db w \<and>
            new_calls w w' =
              prelude_calls d depl proj @ unlock_calls e proj (trace w @ prelude_calls d depl proj) \<and>
            list_all (\<lambda>c. \<not> is_Upload c \<and> \<not> is_UpdateState c) (new_calls w w'))"
proof (cases "d_State depl = StateUploaded \<or> d_State depl = StatePendingUpload \<or>
              (\<not> SkipWebrootUpload d \<and> d_State depl = StateDeployed)")
  case True
  let ?w4 = "after_lock w d depl proj"
  from Work_acquired [OF assms(1)] assms(2) locked_body_rejects [OF True, of e proj ?w4]
  have wr: "w' = unlock e proj ?w4" "r = Some errUnexpectedState" by simp_all
  have "trace w' = trace w @ prelude_calls d depl proj @
          unlock_calls e proj (trace w @ prelude_calls d depl proj)"
    using wr by (simp add: unlock_facts after_lock_def)
  then have n: "new_calls w w' = prelude_calls d depl proj @
          unlock_calls e proj (trace w @ prelude_calls d depl proj)"
    by (rule new_calls_eq)
  have "list_all (\<lambda>c. \<not> is_Upload c \<and> \<not> is_UpdateState c) (new_calls w w')"
    unfolding n by (simp add: prelude_calls_def unlock_calls_def split: option.splits)
  with True wr n show ?thesis
    by (simp add: unlock_facts after_lock_def)
next
  case False
  let ?w4 = "after_lock w d depl proj"
  from Work_acquired [OF assms(1)] assms(2)
  have "r = snd (locked_body e d depl proj ?w4)" by simp
  with run_ok_not_unexpected [OF locked_body_accepts [OF False, of e proj ?w4]]
  have "r \<noteq> Some errUnexpectedState" by simp
  with False show ?thesis by simp
qed

lemma before_loop_facts:
  assumes "before_loop e d depl w = (w0, bp)"
  shows "\<exists>cs. trace w0 = trace w @ cs \<and> list_all web_call cs \<and> db w0 = db w \<and> tx w0 = tx w"
proof -
  obtain w1 bp' where b: "bundle_path e d depl (PrefixID depl) w = (w1, bp')"
    by (cases "bundle_path e d depl (PrefixID depl) w")
  from bundle_path_facts [OF b] obtain cs where
    "trace w1 = trace w @ cs" "list_all web_call cs" "db w1 = db w" "tx w1 = tx w"
    by blast
  with assms b show ?thesis
    by (intro exI [of _ "cs @ [TempFile (PrefixID depl @ ''-optimized-bundle.tar.gz''),
                               Download bp', GzipNewReader]"])
       (auto simp: before_loop_def)
qed

lemma Work_through_loop:
  assumes "reaches_loop e data w d depl proj"
    and "before_loop e d depl (after_lock w d depl proj) = (w0, bp)"
  shows "Work e data w =
           (unlock e proj
              (record_call (CloseRemoveTempFile (PrefixID depl @ ''-optimized-bundle.tar.gz''))
                 (record_call GzipClose
                    (fst (extract_body e d depl proj (PrefixID depl) bp w0)))),
            snd (extract_body e d depl proj (PrefixID depl) bp w0))"
proof -
  let ?w4 = "after_lock w d depl proj"
  let ?tmp = "PrefixID depl @ ''-optimized-bundle.tar.gz''"
  from assms(1) have acq: "acquires e data w d depl proj" by (simp add: reaches_loop_def)
  obtain w1 bp' where b: "bundle_path e d depl (PrefixID depl) ?w4 = (w1, bp')"
    by (cases "bundle_path e d depl (PrefixID depl) ?w4")
  with assms(2) have w0: "w0 = w1\<lparr>trace := trace w1 @ [TempFile ?tmp, Download bp', GzipNewReader]\<rparr>"
    and bp: "bp = bp'"
    by (auto simp: before_loop_def)
  from assms(1) b have f:
    "fails e (trace w1) (TempFile ?tmp) = None"
    "fails e (trace w1 @ [TempFile ?tmp]) (Download bp') = None"
    "fails e (trace w1 @ [TempFile ?tmp, Download bp']) GzipNewReader = None"
    and st: "\<not> SkipWebrootUpload d" "d_State depl \<noteq> StateUploaded"
      "d_State depl \<noteq> StatePendingUpload" "d_State depl \<noteq> StateDeployed"
    by (simp_all add: reaches_loop_def)
  have db: "download_body e d depl proj (PrefixID depl) bp' (w1\<lparr>trace := trace w1 @ [TempFile ?tmp]\<rparr>) =
        (record_call GzipClose (fst (extract_body e d depl proj (PrefixID depl) bp w0)),
         snd (extract_body e d depl proj (PrefixID depl) bp w0))"
    using f w0 bp by (simp add: download_body_def attempt_def split: prod.splits)
  have "locked_body e d depl proj ?w4 =
        (record_call (CloseRemoveTempFile ?tmp)
           (record_call GzipClose (fst (extract_body e d depl proj (PrefixID depl) bp w0))),
         snd (extract_body e d depl proj (PrefixID depl) bp w0))"
    using st b f(1) db by (simp add: locked_body_def attempt_def Let_def)
  with Work_acquired [OF acq] show ?thesis by simp
qed

lemma loop_world_facts:
  assumes "loop_result e w d depl proj = (w1, lr)"
  shows "\<exists>cs. trace w1 = trace w @ cs \<and> list_all (\<lambda>c. prelude_call c \<or> web_call c) cs \<and>
              db w1 = db w \<and> tx w1 = tx w"
proof -
  let ?w4 = "after_lock w d depl proj"
  obtain w0 bp where b: "before_loop e d depl ?w4 = (w0, bp)"
    by (cases "before_loop e d depl ?w4")
  from before_loop_facts [OF b] obtain cs0 where
    c0: "trace w0 = trace ?w4 @ cs0" "list_all web_call cs0" "db w0 = db ?w4" "tx w0 = tx ?w4"
    by blast
  from assms b have "upload_loop e proj (''deployments/'' @ PrefixID depl @ ''/webroot'') (timer e)
      (read_archive e (s3_object e bp)) w0 = (w1, lr)"
    by (simp add: loop_result_def)
  from upload_loop_facts [OF this] obtain cs1 where
    c1: "trace w1 = trace w0 @ cs1" "list_all web_call cs1" "db w1 = db w0" "tx w1 = tx w0"
    by blast
  have "list_all (\<lambda>c. prelude_call c \<or> web_call c) (prelude_calls d depl proj @ cs0 @ cs1)"
    using c0 c1 by (auto simp: prelude_calls_def list_all_iff)
  with c0 c1 show ?thesis
    by (intro exI [of _ "prelude_calls d depl proj @ cs0 @ cs1"]) (simp add: after_lock_def)
qed

lemma extract_body_unfold:
  assumes "loop_result e w d depl proj = (w1, lr)"
    and "before_loop e d depl (after_lock w d depl proj) = (w0, bp)"
  shows "extract_body e d depl proj (PrefixID depl) bp w0 =
           (case lr of
              LoopErr err \<Rightarrow> (w1, Some err)
            | LoopTimeout \<Rightarrow> on_timeout e depl (PrefixID depl) w1
            | LoopDone \<Rightarrow>
                (case upload_jsenv e depl (''deployments/'' @ PrefixID depl @ ''/webroot'') w1 of
                   (w2, Some err) \<Rightarrow> (w2, Some err)
                 | (w2, None) \<Rightarrow> finish e d depl proj (PrefixID depl) w2))"
  using assms by (cases lr) (simp_all add: extract_body_def loop_result_def Let_def)

lemma save_timed_out_rows:
  "\<forall>x \<in> set (deployments (save_deployment (timed_out depl) D)).
     d_ID x = d_ID depl \<longrightarrow>
       d_State x = StateDeployFailed \<and>
       d_ErrorMessage x = Some ''Timed out due to too many files''"
  by (auto simp: save_deployment_def timed_out_def)

text \<open>
  C3, as the code has it. When the run reaches the extraction loop and the timer wins
  the \<^verbatim>\<open>select\<close>, \<^verbatim>\<open>Work\<close> sets the error message on the deployment and calls
  \<^verbatim>\<open>UpdateState\<close> with \<^verbatim>\<open>deploy_failed\<close>. If that update succeeds, the stored row has
  state \<^verbatim>\<open>deploy_failed\<close> and the message \<^verbatim>\<open>Timed out due to too many files\<close>; if it
  fails, the failure is only printed and the database is as before. In both cases the
  reader is closed, the temporary file removed, \<^verbatim>\<open>Unlock\<close> called, and \<^verbatim>\<open>ErrTimeout\<close>
  returned; the run makes no \<^verbatim>\<open>NewMessage\<close>, \<^verbatim>\<open>Publish\<close> or \<^verbatim>\<open>Begin\<close> call.
\<close>

theorem timeout_branch:
  assumes "reaches_loop e data w d depl proj"
    and "loop_result e w d depl proj = (w1, LoopTimeout)"
    and "Work e data w = (w', r)"
  shows "r = Some ErrTimeout \<and>
         (case fails e (trace w1) (CallUpdateState (d_ID depl) StateDeployFailed) of
            None \<Rightarrow>
              new_calls w1 w' =
                [CallUpdateState (d_ID depl) StateDeployFailed, GzipClose,
                 CloseRemoveTempFile (PrefixID depl @ ''-optimized-bundle.tar.gz'')] @
                unlock_calls e proj
                  (trace w1 @ [CallUpdateState (d_ID depl) StateDeployFailed, GzipClose,
                     CloseRemoveTempFile (PrefixID depl @ ''-optimized-bundle.tar.gz'')]) \<and>
              db w' = save_deployment (timed_out depl) (db w) \<and>
              (\<forall>x \<in> set (deployments (db w')).
                 d_ID x = d_ID depl \<longrightarrow>
                   d_State x = StateDeployFailed \<and>
                   d_ErrorMessage x = Some ''Timed out due to too many files'')
          | Some msg \<Rightarrow>
              new_calls w1 w' =
                [CallUpdateState (d_ID depl) StateDeployFailed,
                 Log (LogUpdateStateFailed (PrefixID depl) msg), GzipClose,
                 CloseRemoveTempFile (PrefixID depl @ ''-optimized-bundle.tar.gz'')] @
                unlock_calls e proj
                  (trace w1 @ [CallUpdateState (d_ID depl) StateDeployFailed,
                     Log (LogUpdateStateFailed (PrefixID depl) msg), GzipClose,
                     CloseRemoveTempFile (PrefixID depl @ ''-optimized-bundle.tar.gz'')]) \<and>
              db w' = db w) \<and>
         list_all (\<lambda>c. \<not> is_NewMessage c \<and> \<not> is_Publish c \<and> c \<noteq> Begin) (new_calls w w')"
proof -
  let ?w4 = "after_lock w d depl proj"
  let ?tmp = "PrefixID depl @ ''-optimized-bundle.tar.gz''"
  let ?cu = "CallUpdateState (d_ID depl) StateDeployFailed"
  obtain w0 bp where b: "before_loop e d depl ?w4 = (w0, bp)"
    by (cases "before_loop e d depl ?w4")
  obtain w3 r3 where ot: "on_timeout e depl (PrefixID depl) w1 = (w3, r3)"
    by (cases "on_timeout e depl (PrefixID depl) w1")
  from extract_body_unfold [OF assms(2) b] ot
  have eb: "extract_body e d depl proj (PrefixID depl) bp w0 = (w3, r3)" by simp
  from Work_through_loop [OF assms(1) b] eb assms(3)
  have wr: "w' = unlock e proj (record_call (CloseRemoveTempFile ?tmp) (record_call GzipClose w3))"
    "r = r3" by simp_all
  note f = on_timeout_facts [OF ot]
  from loop_world_facts [OF assms(2)] obtain cs where
    cs: "trace w1 = trace w @ cs" "list_all (\<lambda>c. prelude_call c \<or> web_call c) cs" "db w1 = db w"
    by blast
  have pre: "list_all (\<lambda>c. \<not> is_NewMessage c \<and> \<not> is_Publish c \<and> c \<noteq> Begin) cs"
    using cs(2) by (auto simp: list_all_iff dest: web_not_others prelude_not_others)
  show ?thesis
  proof (cases "fails e (trace w1) ?cu")
    case None
    with f have g: "r3 = Some ErrTimeout" "trace w3 = trace w1 @ [?cu]"
      "db w3 = save_deployment (timed_out depl) (db w1)" by simp_all
    have t: "trace w' = trace w1 @ [?cu, GzipClose, CloseRemoveTempFile ?tmp] @
               unlock_calls e proj (trace w1 @ [?cu, GzipClose, CloseRemoveTempFile ?tmp])"
      using wr g by (simp add: unlock_facts)
    have t2: "trace w' = trace w @ cs @ [?cu, GzipClose, CloseRemoveTempFile ?tmp] @
               unlock_calls e proj (trace w1 @ [?cu, GzipClose, CloseRemoveTempFile ?tmp])"
      using t cs by simp
    have "list_all (\<lambda>c. \<not> is_NewMessage c \<and> \<not> is_Publish c \<and> c \<noteq> Begin) (new_calls w w')"
      unfolding new_calls_eq [OF t2] using pre
      by (simp add: unlock_calls_def split: option.splits)
    moreover have "db w' = save_deployment (timed_out depl) (db w)"
      using wr g cs by (simp add: unlock_facts)
    ultimately show ?thesis
      using None wr g new_calls_eq [OF t] save_timed_out_rows [of depl "db w"] by simp
  next
    case (Some msg)
    let ?lg = "Log (LogUpdateStateFailed (PrefixID depl) msg)"
    from Some f have g: "r3 = Some ErrTimeout" "trace w3 = trace w1 @ [?cu, ?lg]"
      "db w3 = db w1" by simp_all
    have t: "trace w' = trace w1 @ [?cu, ?lg, GzipClose, CloseRemoveTempFile ?tmp] @
               unlock_calls e proj (trace w1 @ [?cu, ?lg, GzipClose, CloseRemoveTempFile ?tmp])"
      using wr g by (simp add: unlock_facts)
    have t2: "trace w' = trace w @ cs @ [?cu, ?lg, GzipClose, CloseRemoveTempFile ?tmp] @
               unlock_calls e proj (trace w1 @ [?cu, ?lg, GzipClose, CloseRemoveTempFile ?tmp])"
      using t cs by simp
    have "list_all (\<lambda>c. \<not> is_NewMessage c \<and> \<not> is_Publish c \<and> c \<noteq> Begin) (new_calls w w')"
      unfolding new_calls_eq [OF t2] using pre
      by (simp add: unlock_calls_def split: option.splits)
    moreover have "db w' = db w"
      using wr g cs by (simp add: unlock_facts)
    ultimately show ?thesis
      using Some wr g new_calls_eq [OF t] by simp
  qed
qed

text \<open>
  C10. When the run reaches the extraction loop and the loop finishes, and
  \<^verbatim>\<open>js_env_vars\<close> is a JSON object with a member whose value is a number, a boolean, an
  array or an object, \<^verbatim>\<open>Work\<close> returns the unmarshal type error. After the loop nothing
  is called but the deferred cleanup (no upload of \<^verbatim>\<open>jsenv.js\<close>), and the database is
  unchanged.
\<close>

theorem env_vars_must_be_strings:
  assumes "reaches_loop e data w d depl proj"
    and "loop_result e w d depl proj = (w1, LoopDone)"
    and "json_decode e (d_JsEnvVars depl) = Some (JObject kvs)"
    and "(k, v) \<in> set kvs" and "non_string v"
    and "Work e data w = (w', r)"
  shows "r = Some ErrUnmarshalType \<and>
         new_calls w1 w' =
           [GzipClose, CloseRemoveTempFile (PrefixID depl @ ''-optimized-bundle.tar.gz'')] @
           unlock_calls e proj
             (trace w1 @ [GzipClose,
                CloseRemoveTempFile (PrefixID depl @ ''-optimized-bundle.tar.gz'')]) \<and>
         db w' = db w"
proof -
  let ?w4 = "after_lock w d depl proj"
  let ?tmp = "PrefixID depl @ ''-optimized-bundle.tar.gz''"
  obtain w0 bp where b: "before_loop e d depl ?w4 = (w0, bp)"
    by (cases "before_loop e d depl ?w4")
  have "Unmarshal_envvars e (d_JsEnvVars depl) = Inl ErrUnmarshalType"
    using assms(3) unmarshal_members_non_string [OF assms(4,5)]
    by (simp add: Unmarshal_envvars_def)
  then have "upload_jsenv e depl (''deployments/'' @ PrefixID depl @ ''/webroot'') w1 =
      (w1, Some ErrUnmarshalType)"
    by (simp add: upload_jsenv_def)
  with extract_body_unfold [OF assms(2) b]
  have eb: "extract_body e d depl proj (PrefixID depl) bp w0 = (w1, Some ErrUnmarshalType)"
    by simp
  from Work_through_loop [OF assms(1) b] eb assms(6)
  have wr: "w' = unlock e proj (record_call (CloseRemoveTempFile ?tmp) (record_call GzipClose w1))"
    "r = Some ErrUnmarshalType" by simp_all
  from loop_world_facts [OF assms(2)] have "db w1 = db w" by blast
  moreover have "trace w' = trace w1 @ [GzipClose, CloseRemoveTempFile ?tmp] @
      unlock_calls e proj (trace w1 @ [GzipClose, CloseRemoveTempFile ?tmp])"
    using wr by (simp add: unlock_facts)
  ultimately show ?thesis
    using wr new_calls_eq [of w' w1] by (simp add: unlock_facts)
qed

lemma run_ok_extends: "run_ok e d depl proj w w' r \<Longrightarrow> \<exists>cs. trace w' = trace w @ cs"
  unfolding run_ok_def by blast

text \<open>
  C7, as the code has it. When the run reaches the extraction loop, the loop finishes,
  and \<^verbatim>\<open>js_env_vars\<close> unmarshals into a map from strings to strings, the next call is
  the upload of \<^verbatim>\<open>deployments/<PrefixID>/webroot/jsenv.js\<close> with content type
  \<^verbatim>\<open>application/javascript\<close> and ACL \<^verbatim>\<open>public-read\<close>; its content is \<open>jsenvFormat\<close> of
  the bytes of \<^verbatim>\<open>js_env_vars\<close>: the source's template, indented with tabs and ending in a
  line feed, with the bytes in the place of \<^verbatim>\<open>%s\<close>.
\<close>

theorem jsenv_upload:
  assumes "reaches_loop e data w d depl proj"
    and "loop_result e w d depl proj = (w1, LoopDone)"
    and "Unmarshal_envvars e (d_JsEnvVars depl) = Inr envvars"
    and "Work e data w = (w', r)"
  shows "\<exists>rest. new_calls w1 w' =
           Upload (''deployments/'' @ PrefixID depl @ ''/webroot/jsenv.js'')
             (jsenvFormat (d_JsEnvVars depl)) ''application/javascript'' ''public-read'' # rest"
proof -
  let ?w4 = "after_lock w d depl proj"
  let ?tmp = "PrefixID depl @ ''-optimized-bundle.tar.gz''"
  let ?up = "Upload (''deployments/'' @ PrefixID depl @ ''/webroot/jsenv.js'')
               (jsenvFormat (d_JsEnvVars depl)) ''application/javascript'' ''public-read''"
  let ?w2 = "w1\<lparr>trace := trace w1 @ [?up]\<rparr>"
  obtain w0 bp where b: "before_loop e d depl ?w4 = (w0, bp)"
    by (cases "before_loop e d depl ?w4")
  obtain w3 r3 where eb: "extract_body e d depl proj (PrefixID depl) bp w0 = (w3, r3)"
    by (cases "extract_body e d depl proj (PrefixID depl) bp w0")
  have "\<exists>cs. trace w3 = trace w1 @ ?up # cs"
  proof (cases "fails e (trace w1) ?up")
    case (Some msg)
    with assms(3) have "upload_jsenv e depl (''deployments/'' @ PrefixID depl @ ''/webroot'') w1 =
        (?w2, Some (ErrCollaborator msg))"
      by (simp add: upload_jsenv_def attempt_def)
    with extract_body_unfold [OF assms(2) b] eb have "w3 = ?w2" by simp
    then show ?thesis by simp
  next
    case None
    with assms(3) have "upload_jsenv e depl (''deployments/'' @ PrefixID depl @ ''/webroot'') w1 =
        (?w2, None)"
      by (simp add: upload_jsenv_def attempt_def)
    with extract_body_unfold [OF assms(2) b] eb
    have "finish e d depl proj (PrefixID depl) ?w2 = (w3, r3)" by simp
    from run_ok_extends [OF finish_run [OF this]] show ?thesis by auto
  qed
  then obtain cs where cs: "trace w3 = trace w1 @ ?up # cs" by blast
  from Work_through_loop [OF assms(1) b] eb assms(4)
  have "w' = unlock e proj (record_call (CloseRemoveTempFile ?tmp) (record_call GzipClose w3))"
    by simp
  then have "trace w' = trace w1 @ (?up # cs @ [GzipClose, CloseRemoveTempFile ?tmp] @
      unlock_calls e proj (trace w3 @ [GzipClose, CloseRemoveTempFile ?tmp]))"
    using cs by (simp add: unlock_facts)
  from new_calls_eq [OF this] show ?thesis by blast
qed

lemma transaction_effect_deployments:
  "\<forall>x \<in> set (deployments (transaction_effect e depl proj D)).
     d_ID x = d_ID depl \<longrightarrow> d_State x = StateDeployed \<and> d_DeployedAt x = Some (time_now e)"
  by (auto simp: transaction_effect_def Let_def save_deployment_def set_active_def soft_delete_def)

lemma transaction_effect_keeps_row:
  assumes "x \<in> set (deployments D)"
  shows "\<exists>y \<in> set (deployments (transaction_effect e depl proj D)). d_ID y = d_ID x"
proof -
  let ?f = "\<lambda>r. if d_ID r = d_ID depl
                  then depl\<lparr>d_State := StateDeployed, d_DeployedAt := Some (time_now e)\<rparr> else r"
  let ?D2 = "set_active (p_ID proj) (d_ID depl)
               (save_deployment (depl\<lparr>d_State := StateDeployed, d_DeployedAt := Some (time_now e)\<rparr>) D)"
  have a: "?f x \<in> set (deployments ?D2)" "d_ID (?f x) = d_ID x"
    using assms by (auto simp: save_deployment_def set_active_def)
  show ?thesis
  proof (cases "p_MaxDeploysKept proj > 0")
    case False
    with a show ?thesis by (auto simp: transaction_effect_def Let_def)
  next
    case True
    let ?ids = "older_than_last_n (p_ID proj) (nat (p_MaxDeploysKept proj)) ?D2"
    let ?g = "\<lambda>r. if d_ID r \<in> set ?ids then r\<lparr>d_DeletedAt := Some (time_now e)\<rparr> else r"
    have "?g (?f x) \<in> set (deployments (soft_delete (time_now e) ?ids ?D2))"
      using a(1) by (simp add: soft_delete_def)
    moreover have "d_ID (?g (?f x)) = d_ID x" using a(2) by simp
    ultimately show ?thesis
      using True unfolding transaction_effect_def Let_def by (auto simp del: set_map)
  qed
qed

lemma transaction_effect_projects:
  "\<forall>p \<in> set (projects (transaction_effect e depl proj D)).
     p_ID p = p_ID proj \<longrightarrow> p_ActiveDeploymentID p = Some (d_ID depl)"
  by (auto simp: transaction_effect_def Let_def save_deployment_def set_active_def soft_delete_def)

lemma transaction_effect_keeps_project:
  assumes "p \<in> set (projects D)"
  shows "\<exists>q \<in> set (projects (transaction_effect e depl proj D)). p_ID q = p_ID p"
proof -
  let ?f = "\<lambda>q. if p_ID q = p_ID proj then q\<lparr>p_ActiveDeploymentID := Some (d_ID depl)\<rparr> else q"
  have a: "projects (transaction_effect e depl proj D) = map ?f (projects D)"
    by (simp add: transaction_effect_def Let_def save_deployment_def set_active_def soft_delete_def)
  have b: "?f p \<in> set (map ?f (projects D))"
    unfolding set_map using assms by (rule imageI)
  have c: "p_ID (?f p) = p_ID p" by simp
  show ?thesis
    unfolding a using b c by (rule bexI [rotated])
qed

lemma find_Some_mem: "find P xs = Some x \<Longrightarrow> x \<in> set xs \<and> P x"
  by (auto simp: find_Some_iff)

lemma unlock_calls_plain:
  "list_all (\<lambda>c. \<not> is_Publish c \<and> c \<noteq> Begin \<and> \<not> is_Upload c \<and> \<not> tx_call c) (unlock_calls e proj hist)"
  by (simp add: unlock_calls_def split: option.splits)

lemma unlock_calls_no_tx:
  "CallUpdateState i s \<notin> set (unlock_calls e proj hist)" "Rollback \<notin> set (unlock_calls e proj hist)"
  "Begin \<notin> set (unlock_calls e proj hist)"
  by (simp_all add: unlock_calls_def split: option.splits)

lemma prelude_calls_plain:
  "list_all (\<lambda>c. \<not> is_Publish c \<and> c \<noteq> Begin \<and> \<not> tx_call c) (prelude_calls d depl proj)"
  by (simp add: prelude_calls_def)

text \<open>The three ways a run that reached the lock can go.\<close>

lemma Work_locked_cases:
  assumes "reaches_lock e data w d depl proj" and "Work e data w = (w', r)"
  obtains
    (not_acquired) "r = Some ErrProjectLocked" "db w' = db w" "tx w' = tx w"
      "trace w' = trace w @ prelude_calls d depl proj"
  | (rejected) "r = Some errUnexpectedState" "db w' = db w" "tx w' = tx w"
      "trace w' = trace w @ prelude_calls d depl proj @
         unlock_calls e proj (trace w @ prelude_calls d depl proj)"
  | (run) w5 where "run_ok e d depl proj (after_lock w d depl proj) w5 r"
      "trace w' = trace w5 @ unlock_calls e proj (trace w5)" "db w' = db w5" "tx w' = tx w5"
proof (cases "lock_acquired e")
  case False
  from Work_not_acquired [OF assms(1) False] assms(2)
  have "w' = after_lock w d depl proj" "r = Some ErrProjectLocked" by simp_all
  then show ?thesis by (intro not_acquired) (simp_all add: after_lock_def)
next
  case True
  let ?w4 = "after_lock w d depl proj"
  from assms(1) True have acq: "acquires e data w d depl proj" by (simp add: acquires_def)
  note W = Work_acquired [OF acq]
  show ?thesis
  proof (cases "d_State depl = StateUploaded \<or> d_State depl = StatePendingUpload \<or>
                (\<not> SkipWebrootUpload d \<and> d_State depl = StateDeployed)")
    case True
    from W assms(2) locked_body_rejects [OF True, of e proj ?w4]
    have "w' = unlock e proj ?w4" "r = Some errUnexpectedState" by simp_all
    then show ?thesis
      by (intro rejected) (simp_all add: unlock_facts after_lock_def)
  next
    case False
    let ?lb = "locked_body e d depl proj ?w4"
    from W assms(2) have "w' = unlock e proj (fst ?lb)" "r = snd ?lb" by simp_all
    with locked_body_accepts [OF False, of e proj ?w4] show ?thesis
      by (intro run [of "fst ?lb"]) (simp_all add: unlock_facts)
  qed
qed

text \<open>
  C5. For a job with \<^verbatim>\<open>skip_invalidation\<close> false, either the run fails without any
  \<^verbatim>\<open>Publish\<close> or \<^verbatim>\<open>Begin\<close> call (it did not get as far as publishing), or its calls are
  \<open>pre @ Publish # post\<close>, where the message goes to exchange \<^verbatim>\<open>edges\<close> with routing key
  \<^verbatim>\<open>v1.invalidation\<close> and carries the project's domain names, \<open>pre\<close> has no \<^verbatim>\<open>Publish\<close>
  and no \<^verbatim>\<open>Begin\<close> (the transaction is opened after it), and \<open>post\<close> has no upload and no
  further \<^verbatim>\<open>Publish\<close> (all uploads are before it). If that publish fails, \<^verbatim>\<open>Work\<close>
  returns its error, the database is unchanged and no transaction is opened. A run that
  returns \<^verbatim>\<open>nil\<close> is of the second kind.
\<close>

theorem invalidation_order:
  assumes "Work e data w = (w', r)" and "unmarshal_job e data = Inr d"
    and "\<not> SkipInvalidation d"
  shows "(r \<noteq> None \<and> list_all (\<lambda>c. \<not> is_Publish c \<and> c \<noteq> Begin) (new_calls w w')) \<or>
         (\<exists>depl proj pre post.
            reaches_lock e data w d depl proj \<and>
            new_calls w w' =
              pre @ Publish ''edges'' ''v1.invalidation'' (domain_names proj (db w)) # post \<and>
            list_all (\<lambda>c. \<not> is_Publish c \<and> c \<noteq> Begin) pre \<and>
            list_all (\<lambda>c. \<not> is_Upload c \<and> \<not> is_Publish c) post \<and>
            (\<forall>msg. fails e (trace w @ pre)
                     (Publish ''edges'' ''v1.invalidation'' (domain_names proj (db w))) = Some msg \<longrightarrow>
                   r = Some (ErrCollaborator msg) \<and> db w' = db w \<and> Begin \<notin> set post))"
proof -
  let ?plain = "\<lambda>c. \<not> is_Publish c \<and> c \<noteq> Begin"
  from Work_cases [OF assms(1)] show ?thesis
  proof
    assume "r \<noteq> None \<and> db w' = db w \<and> tx w' = tx w \<and>
            (\<exists>cs. trace w' = trace w @ cs \<and> list_all prelude_call cs)"
    then obtain cs where "r \<noteq> None" "trace w' = trace w @ cs" "list_all prelude_call cs"
      by blast
    then have "r \<noteq> None \<and> list_all ?plain (new_calls w w')"
      by (auto simp: new_calls_eq list_all_iff dest: prelude_not_others)
    then show ?thesis by blast
  next
    assume "\<exists>d depl proj. reaches_lock e data w d depl proj"
    then obtain d' depl proj where "reaches_lock e data w d' depl proj" by blast
    with assms(2) have rl: "reaches_lock e data w d depl proj"
      by (simp add: reaches_lock_def)
    let ?doms = "domain_names proj (db w)"
    let ?pl = "prelude_calls d depl proj"
    from rl assms(1) show ?thesis
    proof (cases rule: Work_locked_cases)
      case not_acquired
      then have "r \<noteq> None \<and> list_all ?plain (new_calls w w')"
        by (simp add: new_calls_eq prelude_calls_def)
      then show ?thesis by blast
    next
      case rejected
      then have "r \<noteq> None \<and> list_all ?plain (new_calls w w')"
        by (simp add: new_calls_eq prelude_calls_def unlock_calls_def split: option.splits)
      then show ?thesis by blast
    next
      case (run w5)
      let ?w4 = "after_lock w d depl proj"
      have db4: "db ?w4 = db w" and tr4: "trace ?w4 = trace w @ ?pl"
        by (simp_all add: after_lock_def)
      from run(1) obtain pre mid post where
        t: "trace w5 = trace ?w4 @ pre @ mid @ post"
        and s: "shape_ok d ?doms pre mid post"
        and p: "publish_ok e ?doms (trace ?w4 @ pre) mid post r"
        and c: "case r of
                  None \<Rightarrow> success_ok e d depl proj ?w4 w5 mid post
                | Some err \<Rightarrow> failure_ok ?w4 w5 err post \<and>
                    (err = ErrTimeout \<longrightarrow> timeout_ok e depl (trace ?w4 @ pre) ?w4 w5 mid post)"
        unfolding run_ok_def db4 by blast
      let ?ul = "unlock_calls e proj (trace w5)"
      have tw: "trace w' = trace w @ ?pl @ pre @ mid @ post @ ?ul"
        using run(2) t tr4 by simp
      have pre_plain: "list_all ?plain pre"
        using s by (auto simp: shape_ok_def list_all_iff dest: web_not_others)
      have post_plain: "list_all (\<lambda>c. \<not> is_Upload c \<and> \<not> is_Publish c) post"
        using s by (auto simp: shape_ok_def list_all_iff dest: end_not_others)
      have ul_plain: "list_all (\<lambda>c. \<not> is_Publish c \<and> c \<noteq> Begin \<and> \<not> is_Upload c) ?ul"
        using unlock_calls_plain [of e proj "trace w5"] by (simp add: list_all_iff)
      have pl_plain: "list_all ?plain ?pl"
        using prelude_calls_plain [of d depl proj] by (simp add: list_all_iff)
      from s have midc: "mid = [] \<or> mid = [new_message ?doms] \<or>
          mid = [new_message ?doms, publish ?doms]"
        by (simp add: shape_ok_def)
      have full: "inval_calls d ?doms = [new_message ?doms, publish ?doms]"
        using assms(3) by (simp add: inval_calls_def)
      show ?thesis
      proof (cases "mid = [new_message ?doms, publish ?doms]")
        case False
        with s full have nb: "Begin \<notin> set post" by (auto simp: shape_ok_def)
        from False c full db4 have rn: "r \<noteq> None"
          by (auto simp: success_ok_def split: option.splits)
        from False midc have "list_all ?plain mid"
          by (auto simp: new_message_def)
        moreover from post_plain nb have "list_all ?plain post"
          by (auto simp: list_all_iff)
        ultimately have "list_all ?plain (new_calls w w')"
          unfolding new_calls_eq [OF tw] using pl_plain pre_plain ul_plain
          by (auto simp: list_all_iff)
        with rn show ?thesis by blast
      next
        case True
        let ?pre = "?pl @ pre @ [new_message ?doms]"
        let ?post = "post @ ?ul"
        have n: "new_calls w w' = ?pre @ Publish ''edges'' ''v1.invalidation'' ?doms # ?post"
          unfolding new_calls_eq [OF tw] using True
          by (simp add: publish_def Edges_def RouteV1Invalidation_def)
        have a: "list_all ?plain ?pre"
          using pl_plain pre_plain by (simp add: new_message_def)
        have b: "list_all (\<lambda>c. \<not> is_Upload c \<and> \<not> is_Publish c) ?post"
          using post_plain ul_plain by (auto simp: list_all_iff)
        have f: "r = Some (ErrCollaborator msg) \<and> db w' = db w \<and> Begin \<notin> set ?post"
          if "fails e (trace w @ ?pre) (Publish ''edges'' ''v1.invalidation'' ?doms) = Some msg"
          for msg
        proof -
          from that have "fails e ((trace ?w4 @ pre) @ [new_message ?doms]) (publish ?doms) = Some msg"
            by (simp add: tr4 publish_def Edges_def RouteV1Invalidation_def)
          with p True have r: "r = Some (ErrCollaborator msg)" and nb: "Begin \<notin> set post"
            by (simp_all add: publish_ok_def)
          from c r have "db w5 = db ?w4" by (simp add: failure_ok_def)
          with run(3) db4 have "db w' = db w" by simp
          with r nb unlock_calls_no_tx(3) [of e proj "trace w5"] show ?thesis by simp
        qed
        from rl n a b f show ?thesis by blast
      qed
    qed
  qed
qed


text \<open>
  C1. When \<^verbatim>\<open>Work\<close> returns \<^verbatim>\<open>nil\<close>, its calls contain the calls of exactly one
  transaction (\<open>txn_calls\<close>: \<^verbatim>\<open>Begin\<close>, the state update to \<^verbatim>\<open>deployed\<close>, the update of
  \<^verbatim>\<open>active_deployment_id\<close>, \<^verbatim>\<open>DeleteExceptLastN\<close> when \<^verbatim>\<open>max_deploys_kept > 0\<close>,
  \<^verbatim>\<open>Commit\<close>) and no other transaction call; the database is the initial one changed by
  \<open>transaction_effect\<close>; the deployment's row is in state \<^verbatim>\<open>deployed\<close> with
  \<^verbatim>\<open>deployed_at\<close> set, and the project's \<^verbatim>\<open>active_deployment_id\<close> is the deployment's id.
  When \<^verbatim>\<open>Work\<close> returns an error after the first statement of the transaction was
  reached, the database is the initial one, the transaction is gone and \<^verbatim>\<open>Rollback\<close>
  was called.
\<close>

theorem commit_transaction:
  assumes "Work e data w = (w', r)"
  shows "(r = None \<longrightarrow>
            (\<exists>d depl proj pre post.
               reaches_lock e data w d depl proj \<and>
               new_calls w w' = pre @ txn_calls depl proj @ post \<and>
               list_all (\<lambda>c. \<not> tx_call c) pre \<and> list_all (\<lambda>c. \<not> tx_call c) post \<and>
               db w' = transaction_effect e depl proj (db w) \<and> tx w' = None \<and>
               (\<forall>x \<in> set (deployments (db w')).
                  d_ID x = d_ID depl \<longrightarrow>
                    d_State x = StateDeployed \<and> d_DeployedAt x = Some (time_now e)) \<and>
               (\<exists>x \<in> set (deployments (db w')). d_ID x = d_ID depl) \<and>
               (\<forall>p \<in> set (projects (db w')).
                  p_ID p = p_ID proj \<longrightarrow> p_ActiveDeploymentID p = Some (d_ID depl)) \<and>
               (\<exists>p \<in> set (projects (db w')). p_ID p = p_ID proj))) \<and>
         (\<forall>err. r = Some err \<and> (\<exists>i. CallUpdateState i StateDeployed \<in> set (new_calls w w')) \<longrightarrow>
            db w' = db w \<and> tx w' = None \<and> Rollback \<in> set (new_calls w w'))"
proof -
  from Work_cases [OF assms] show ?thesis
  proof
    assume "r \<noteq> None \<and> db w' = db w \<and> tx w' = tx w \<and>
            (\<exists>cs. trace w' = trace w @ cs \<and> list_all prelude_call cs)"
    then obtain cs where e: "r \<noteq> None" "trace w' = trace w @ cs" "list_all prelude_call cs"
      by blast
    have "CallUpdateState i StateDeployed \<notin> set (new_calls w w')" for i
      using e(3) unfolding new_calls_eq [OF e(2)] by (auto simp: list_all_iff)
    with e(1) show ?thesis by auto
  next
    assume "\<exists>d depl proj. reaches_lock e data w d depl proj"
    then obtain d depl proj where rl: "reaches_lock e data w d depl proj" by blast
    let ?pl = "prelude_calls d depl proj"
    from rl assms show ?thesis
    proof (cases rule: Work_locked_cases)
      case not_acquired
      have "CallUpdateState i StateDeployed \<notin> set (new_calls w w')" for i
        unfolding new_calls_eq [OF not_acquired(4)] by (simp add: prelude_calls_def)
      with not_acquired(1) show ?thesis by auto
    next
      case rejected
      have "CallUpdateState i StateDeployed \<notin> set (new_calls w w')" for i
        unfolding new_calls_eq [OF rejected(4)]
        by (simp add: prelude_calls_def unlock_calls_def split: option.splits)
      with rejected(1) show ?thesis by auto
    next
      case (run w5)
      let ?w4 = "after_lock w d depl proj"
      let ?doms = "domain_names proj (db w)"
      have db4: "db ?w4 = db w" and tr4: "trace ?w4 = trace w @ ?pl"
        by (simp_all add: after_lock_def)
      from run(1) obtain pre mid post where
        t: "trace w5 = trace ?w4 @ pre @ mid @ post"
        and s: "shape_ok d ?doms pre mid post"
        and c: "case r of
                  None \<Rightarrow> success_ok e d depl proj ?w4 w5 mid post
                | Some err \<Rightarrow> failure_ok ?w4 w5 err post \<and>
                    (err = ErrTimeout \<longrightarrow> timeout_ok e depl (trace ?w4 @ pre) ?w4 w5 mid post)"
        unfolding run_ok_def db4 by blast
      let ?ul = "unlock_calls e proj (trace w5)"
      have tw: "trace w' = trace w @ ?pl @ pre @ mid @ post @ ?ul"
        using run(2) t tr4 by simp
      have pre_ntx: "list_all (\<lambda>c. \<not> tx_call c) pre"
        using s by (auto simp: shape_ok_def list_all_iff dest: web_not_others)
      from s have midc: "mid = [] \<or> mid = [new_message ?doms] \<or>
          mid = [new_message ?doms, publish ?doms]"
        by (simp add: shape_ok_def)
      then have mid_ntx: "list_all (\<lambda>c. \<not> tx_call c) mid"
        by (auto simp: new_message_def publish_def)
      have ul_ntx: "list_all (\<lambda>c. \<not> tx_call c) ?ul"
        using unlock_calls_plain [of e proj "trace w5"] by (simp add: list_all_iff)
      have pl_ntx: "list_all (\<lambda>c. \<not> tx_call c) ?pl"
        by (simp add: prelude_calls_def)
      show ?thesis
      proof (cases r)
        case None
        with c have so: "success_ok e d depl proj ?w4 w5 mid post" by simp
        then obtain post' where
          p': "post = txn_calls depl proj @ post'" "list_all cleanup_call post'"
          and dbe: "db w5 = transaction_effect e depl proj (db w)" and txe: "tx w5 = None"
          unfolding success_ok_def db4 by blast
        let ?pre = "?pl @ pre @ mid"
        let ?post = "post' @ ?ul"
        have n: "new_calls w w' = ?pre @ txn_calls depl proj @ ?post"
          unfolding new_calls_eq [OF tw] using p' by simp
        have a: "list_all (\<lambda>c. \<not> tx_call c) ?pre"
          using pl_ntx pre_ntx mid_ntx by simp
        have b: "list_all (\<lambda>c. \<not> tx_call c) ?post"
          using p'(2) ul_ntx by (auto simp: list_all_iff dest: cleanup_not_others)
        from rl have fd: "find (\<lambda>r. d_ID r = DeploymentID d) (deployments (db w)) = Some depl"
          and fp: "find (\<lambda>p. p_ID p = d_ProjectID depl) (projects (db w)) = Some proj"
          by (simp_all add: reaches_lock_def)
        have dbw: "db w' = transaction_effect e depl proj (db w)" "tx w' = None"
          using run(3,4) dbe txe by simp_all
        have r1: "\<forall>x \<in> set (deployments (db w')).
                    d_ID x = d_ID depl \<longrightarrow>
                      d_State x = StateDeployed \<and> d_DeployedAt x = Some (time_now e)"
          unfolding dbw by (rule transaction_effect_deployments)
        have r2: "\<exists>x \<in> set (deployments (db w')). d_ID x = d_ID depl"
          unfolding dbw using find_Some_mem [OF fd] by (intro transaction_effect_keeps_row) simp
        have r3: "\<forall>p \<in> set (projects (db w')).
                    p_ID p = p_ID proj \<longrightarrow> p_ActiveDeploymentID p = Some (d_ID depl)"
          unfolding dbw by (rule transaction_effect_projects)
        have r4: "\<exists>p \<in> set (projects (db w')). p_ID p = p_ID proj"
          unfolding dbw using find_Some_mem [OF fp] by (intro transaction_effect_keeps_project) simp
        from rl n a b dbw r1 r2 r3 r4 have
          "\<exists>d depl proj pre post.
               reaches_lock e data w d depl proj \<and>
               new_calls w w' = pre @ txn_calls depl proj @ post \<and>
               list_all (\<lambda>c. \<not> tx_call c) pre \<and> list_all (\<lambda>c. \<not> tx_call c) post \<and>
               db w' = transaction_effect e depl proj (db w) \<and> tx w' = None \<and>
               (\<forall>x \<in> set (deployments (db w')).
                  d_ID x = d_ID depl \<longrightarrow>
                    d_State x = StateDeployed \<and> d_DeployedAt x = Some (time_now e)) \<and>
               (\<exists>x \<in> set (deployments (db w')). d_ID x = d_ID depl) \<and>
               (\<forall>p \<in> set (projects (db w')).
                  p_ID p = p_ID proj \<longrightarrow> p_ActiveDeploymentID p = Some (d_ID depl)) \<and>
               (\<exists>p \<in> set (projects (db w')). p_ID p = p_ID proj)"
          by blast
        with None show ?thesis by simp
      next
        case (Some err)
        with c have fo: "failure_ok ?w4 w5 err post"
          and to: "err = ErrTimeout \<longrightarrow> timeout_ok e depl (trace ?w4 @ pre) ?w4 w5 mid post"
          by simp_all
        have g: "db w' = db w \<and> tx w' = None \<and> Rollback \<in> set (new_calls w w')"
          if i: "CallUpdateState i StateDeployed \<in> set (new_calls w w')" for i
        proof -
          from i have "CallUpdateState i StateDeployed \<in> set post"
            unfolding new_calls_eq [OF tw]
            using pl_ntx pre_ntx mid_ntx ul_ntx by (auto simp: list_all_iff)
          then have ip: "\<exists>i. CallUpdateState i StateDeployed \<in> set post" by blast
          have nt: "err \<noteq> ErrTimeout"
          proof
            assume "err = ErrTimeout"
            with to obtain post' where "list_all cleanup_call post'"
              "post = CallUpdateState (d_ID depl) StateDeployFailed # post' \<or>
               (\<exists>msg. post = CallUpdateState (d_ID depl) StateDeployFailed #
                        Log (LogUpdateStateFailed (PrefixID depl) msg) # post')"
              unfolding timeout_ok_def by (auto split: option.splits)
            with ip cleanup_no_UpdateState [of post'] show False by auto
          qed
          from fo ip nt have "db w5 = db ?w4" "tx w5 = None" "Rollback \<in> set post"
            by (simp_all add: failure_ok_def)
          with run(3,4) db4 show ?thesis
            unfolding new_calls_eq [OF tw] by simp
        qed
        with Some show ?thesis by auto
      qed
    qed
  qed
qed

lemmas run_defs =
  Work_def locked_body_def bundle_path_def download_body_def extract_body_def upload_jsenv_def
  on_timeout_def finish_def invalidate_def commit_phase_def rollback_def
  tx_body_def commit_def post_commit_def unlock_def upload_entry_def
  watermark_eligible_def contentType_of_def Ext_def isValidFileName_def MatchString_def
  key_safe_def path_Clean_def MaxFileSizeToWatermark_def word_sle_eq Unmarshal_envvars_def
  DomainNames_def domain_names_def DeleteExceptLastN_def UpdateState_def save_deployment_def
  set_active_def PrefixID_def attempt_def record_call_def Let_def deployed_time_def
  Edges_def RouteV1Invalidation_def

lemmas demo_defs =
  run_env_def run_world_def demo_db_def demo_deployment_def demo_project_def demo_job_def
  demo_env_def index_html_def timeout_env_def port_deployment_def port_world_def
  locked_env_def slow_env_def commit_fails_env_def deployed_deployment_def deployed_world_def
  republish_job_def republish_env_def


lemmas reach_defs =
  reaches_loop_def acquires_def reaches_lock_def after_lock_def prelude_calls_def
  before_loop_def loop_result_def

lemma pair_of_snd: "snd p = b \<Longrightarrow> p = (fst p, b)"
  by (cases p) simp

section \<open>Concrete runs\<close>

text \<open>
  The lock is held by another worker; and the run in which nothing fails, whose last
  call is the unlock.
\<close>

theorem lock_discipline_witness:
  "reaches_lock locked_env [] run_world demo_job demo_deployment demo_project \<and>
   \<not> lock_acquired locked_env \<and>
   snd (Work locked_env [] run_world) = Some ErrProjectLocked \<and>
   new_calls run_world (fst (Work locked_env [] run_world)) =
     [DBOpen, FirstDeployment 7, FirstProject 1, Lock 1] \<and>
   reaches_lock run_env [] run_world demo_job demo_deployment demo_project \<and>
   lock_acquired run_env \<and>
   last (new_calls run_world (fst (Work run_env [] run_world))) = Unlock 1"
proof -
  have h: "reaches_lock locked_env [] run_world demo_job demo_deployment demo_project"
    by (simp add: reach_defs demo_defs)
  have n: "\<not> lock_acquired locked_env"
    by (simp add: demo_defs)
  from lock_discipline [OF h prod.collapse [symmetric]] n
  have a: "snd (Work locked_env [] run_world) = Some ErrProjectLocked \<and>
        new_calls run_world (fst (Work locked_env [] run_world)) =
          prelude_calls demo_job demo_deployment demo_project"
    by simp
  have h': "reaches_lock run_env [] run_world demo_job demo_deployment demo_project"
    by (simp add: reach_defs demo_defs)
  have y: "lock_acquired run_env"
    by (simp add: demo_defs)
  have u: "unlock_calls run_env demo_project hist = [Unlock 1]" for hist
    by (simp add: unlock_calls_def demo_defs)
  from lock_discipline [OF h' prod.collapse [symmetric]] y
  obtain body where "new_calls run_world (fst (Work run_env [] run_world)) =
      prelude_calls demo_job demo_deployment demo_project @ body @ [Unlock 1]"
    unfolding u by blast
  then have b: "last (new_calls run_world (fst (Work run_env [] run_world))) = Unlock 1"
    by simp
  from h n a h' y b show ?thesis
    by (simp add: prelude_calls_def demo_defs)
qed

text \<open>
  A deployed deployment: rejected when the job uploads the webroot; republished when the
  job skips it, and then only \<^verbatim>\<open>meta.json\<close> is uploaded.
\<close>

theorem state_guard_witness:
  "acquires republish_env [] deployed_world republish_job deployed_deployment demo_project \<and>
   acquires run_env [] deployed_world demo_job deployed_deployment demo_project \<and>
   d_State deployed_deployment = StateDeployed \<and>
   SkipWebrootUpload republish_job \<and> \<not> SkipWebrootUpload demo_job \<and>
   snd (Work republish_env [] deployed_world) \<noteq> Some errUnexpectedState \<and>
   snd (Work run_env [] deployed_world) = Some errUnexpectedState \<and>
   db (fst (Work run_env [] deployed_world)) = db deployed_world \<and>
   snd (Work republish_env [] deployed_world) = None \<and>
   filter is_Upload (new_calls deployed_world (fst (Work republish_env [] deployed_world))) =
     [Upload ''domains/foo-bar-express.rise.cloud/meta.json'' ''a1b2-7'' ''application/json''
        ''public-read'']"
proof -
  have a1: "acquires republish_env [] deployed_world republish_job deployed_deployment demo_project"
    by (simp add: reach_defs demo_defs)
  have a2: "acquires run_env [] deployed_world demo_job deployed_deployment demo_project"
    by (simp add: reach_defs demo_defs)
  have s: "d_State deployed_deployment = StateDeployed" "SkipWebrootUpload republish_job"
    "\<not> SkipWebrootUpload demo_job"
    by (simp_all add: demo_defs)
  from state_guard [OF a1 prod.collapse [symmetric]] s
  have r1: "snd (Work republish_env [] deployed_world) \<noteq> Some errUnexpectedState"
    by simp
  from state_guard [OF a2 prod.collapse [symmetric]] s
  have r2: "snd (Work run_env [] deployed_world) = Some errUnexpectedState \<and>
            db (fst (Work run_env [] deployed_world)) = db deployed_world"
    by simp
  have r3: "snd (Work republish_env [] deployed_world) = None \<and>
      filter is_Upload (new_calls deployed_world (fst (Work republish_env [] deployed_world))) =
        [Upload ''domains/foo-bar-express.rise.cloud/meta.json'' ''a1b2-7'' ''application/json''
           ''public-read'']"
    by (simp add: run_defs demo_defs new_calls_def)
  from a1 a2 s r1 r2 r3 show ?thesis by simp
qed

text \<open>The timer fires before the first entry and the update succeeds.\<close>

theorem timeout_branch_witness:
  "reaches_loop slow_env [] run_world demo_job demo_deployment demo_project \<and>
   snd (loop_result slow_env run_world demo_job demo_deployment demo_project) = LoopTimeout \<and>
   snd (Work slow_env [] run_world) = Some ErrTimeout \<and>
   map d_State (deployments (db (fst (Work slow_env [] run_world)))) = [StateDeployFailed] \<and>
   map d_ErrorMessage (deployments (db (fst (Work slow_env [] run_world)))) =
     [Some ''Timed out due to too many files'']"
proof -
  have h: "reaches_loop slow_env [] run_world demo_job demo_deployment demo_project"
    by (simp add: reach_defs run_defs bundle_path_def demo_defs)
  have l: "snd (loop_result slow_env run_world demo_job demo_deployment demo_project) = LoopTimeout"
    by (simp add: reach_defs run_defs bundle_path_def demo_defs)
  have f: "fails slow_env tr c = None" for tr c
    by (simp add: demo_defs)
  from timeout_branch [OF h pair_of_snd [OF l] prod.collapse [symmetric]]
  have "snd (Work slow_env [] run_world) = Some ErrTimeout \<and>
        db (fst (Work slow_env [] run_world)) =
          save_deployment (timed_out demo_deployment) (db run_world)"
    by (simp add: f)
  with h l show ?thesis
    by (simp add: save_deployment_def timed_out_def demo_defs)
qed

text \<open>
  C3 as stated fails: the timer fires, the store refuses the update, \<^verbatim>\<open>Work\<close> returns
  \<^verbatim>\<open>ErrTimeout\<close>, and the deployment's row is still \<^verbatim>\<open>pending_deploy\<close> with no error
  message.
\<close>

theorem timeout_update_fails_counterexample:
  "reaches_loop timeout_env [] run_world demo_job demo_deployment demo_project \<and>
   snd (loop_result timeout_env run_world demo_job demo_deployment demo_project) = LoopTimeout \<and>
   snd (Work timeout_env [] run_world) = Some ErrTimeout \<and>
   map d_State (deployments (db (fst (Work timeout_env [] run_world)))) = [StatePendingDeploy] \<and>
   map d_ErrorMessage (deployments (db (fst (Work timeout_env [] run_world)))) = [None]"
proof -
  have h: "reaches_loop timeout_env [] run_world demo_job demo_deployment demo_project"
    by (simp add: reach_defs run_defs bundle_path_def demo_defs)
  have l: "snd (loop_result timeout_env run_world demo_job demo_deployment demo_project) = LoopTimeout"
    by (simp add: reach_defs run_defs bundle_path_def demo_defs)
  have r: "snd (Work timeout_env [] run_world) = Some ErrTimeout"
    by (simp add: run_defs demo_defs)
  have v: "db (fst (Work timeout_env [] run_world)) = demo_db"
    by (simp add: run_defs demo_defs)
  have m: "map d_State (deployments (db (fst (Work timeout_env [] run_world)))) = [StatePendingDeploy]"
    "map d_ErrorMessage (deployments (db (fst (Work timeout_env [] run_world)))) = [None]"
    unfolding v by (simp_all add: demo_defs)
  from h l r m show ?thesis by simp
qed

text \<open>The environment variables \<^verbatim>\<open>{"PORT":8080}\<close>.\<close>

theorem env_vars_must_be_strings_witness:
  "reaches_loop run_env [] port_world demo_job port_deployment demo_project \<and>
   snd (loop_result run_env port_world demo_job port_deployment demo_project) = LoopDone \<and>
   snd (Work run_env [] port_world) = Some ErrUnmarshalType \<and>
   db (fst (Work run_env [] port_world)) = db port_world"
proof -
  have h: "reaches_loop run_env [] port_world demo_job port_deployment demo_project"
    by (simp add: reach_defs run_defs bundle_path_def demo_defs)
  have l: "snd (loop_result run_env port_world demo_job port_deployment demo_project) = LoopDone"
    by (simp add: reach_defs run_defs bundle_path_def demo_defs)
  have j: "json_decode run_env (d_JsEnvVars port_deployment) =
             Some (JObject [(''PORT'', JNumber ''8080'')])"
    by (simp add: demo_defs)
  have m: "(''PORT'', JNumber ''8080'') \<in> set [(''PORT'', JNumber ''8080'')]" by simp
  have n: "non_string (JNumber ''8080'')" by simp
  from env_vars_must_be_strings [OF h pair_of_snd [OF l] j m n prod.collapse [symmetric]]
  have "snd (Work run_env [] port_world) = Some ErrUnmarshalType \<and>
        db (fst (Work run_env [] port_world)) = db port_world"
    by simp
  with h l show ?thesis by simp
qed

text \<open>The environment variables \<^verbatim>\<open>{}\<close>.\<close>

theorem jsenv_upload_witness:
  "reaches_loop run_env [] run_world demo_job demo_deployment demo_project \<and>
   snd (loop_result run_env run_world demo_job demo_deployment demo_project) = LoopDone \<and>
   Unmarshal_envvars run_env (d_JsEnvVars demo_deployment) = Inr [] \<and>
   hd (new_calls (fst (loop_result run_env run_world demo_job demo_deployment demo_project))
         (fst (Work run_env [] run_world))) =
     Upload ''deployments/a1b2-7/webroot/jsenv.js'' (jsenvFormat ''{}'')
       ''application/javascript'' ''public-read''"
proof -
  have h: "reaches_loop run_env [] run_world demo_job demo_deployment demo_project"
    by (simp add: reach_defs run_defs bundle_path_def demo_defs)
  have l: "snd (loop_result run_env run_world demo_job demo_deployment demo_project) = LoopDone"
    by (simp add: reach_defs run_defs bundle_path_def demo_defs)
  have u: "Unmarshal_envvars run_env (d_JsEnvVars demo_deployment) = Inr []"
    by (simp add: Unmarshal_envvars_def demo_defs)
  from jsenv_upload [OF h pair_of_snd [OF l] u prod.collapse [symmetric]]
  obtain rest where
    "new_calls (fst (loop_result run_env run_world demo_job demo_deployment demo_project))
       (fst (Work run_env [] run_world)) =
     Upload (''deployments/'' @ PrefixID demo_deployment @ ''/webroot/jsenv.js'')
       (jsenvFormat (d_JsEnvVars demo_deployment)) ''application/javascript'' ''public-read'' # rest"
    by blast
  then have "hd (new_calls (fst (loop_result run_env run_world demo_job demo_deployment demo_project))
         (fst (Work run_env [] run_world))) =
     Upload (''deployments/'' @ PrefixID demo_deployment @ ''/webroot/jsenv.js'')
       (jsenvFormat (d_JsEnvVars demo_deployment)) ''application/javascript'' ''public-read''"
    by simp
  with h l u show ?thesis
    by (simp add: PrefixID_def demo_defs)
qed

text \<open>
  C7 as stated fails: with \<^verbatim>\<open>{"PORT":8080}\<close> the run passes the upload loop and then
  only cleans up, so no \<^verbatim>\<open>jsenv.js\<close> is uploaded; and the content \<open>jsenvFormat\<close> produces
  is not the text of the template as the spec prints it.
\<close>

theorem jsenv_upload_counterexample:
  "reaches_loop run_env [] port_world demo_job port_deployment demo_project \<and>
   snd (loop_result run_env port_world demo_job port_deployment demo_project) = LoopDone \<and>
   new_calls (fst (loop_result run_env port_world demo_job port_deployment demo_project))
     (fst (Work run_env [] port_world)) =
     [GzipClose, CloseRemoveTempFile ''a1b2-7-optimized-bundle.tar.gz'', Unlock 1] \<and>
   jsenvFormat ''{}'' \<noteq> jsenv_spec_template ''{}''"
  by (simp add: reach_defs run_defs bundle_path_def demo_defs new_calls_def
        jsenvFormat_def jsenv_spec_template_def)

text \<open>The uploads, the publish and the begin of the run in which nothing fails.\<close>

theorem invalidation_order_witness:
  "unmarshal_job run_env [] = Inr demo_job \<and> \<not> SkipInvalidation demo_job \<and>
   snd (Work run_env [] run_world) = None \<and>
   filter (\<lambda>c. is_Upload c \<or> is_Publish c \<or> c = Begin)
     (new_calls run_world (fst (Work run_env [] run_world))) =
     [Upload ''deployments/a1b2-7/webroot/index.html'' ''<html><a>'' ''text/html'' ''public-read'',
      Upload ''deployments/a1b2-7/webroot/jsenv.js'' (jsenvFormat ''{}'')
        ''application/javascript'' ''public-read'',
      Upload ''domains/foo-bar-express.rise.cloud/meta.json'' ''a1b2-7'' ''application/json''
        ''public-read'',
      Publish ''edges'' ''v1.invalidation'' [''foo-bar-express.rise.cloud''],
      Begin]"
proof -
  have u: "unmarshal_job run_env [] = Inr demo_job" by (simp add: demo_defs)
  have s: "\<not> SkipInvalidation demo_job" by (simp add: demo_defs)
  have r: "snd (Work run_env [] run_world) = None"
    by (simp add: run_defs demo_defs)
  have c: "filter (\<lambda>c. is_Upload c \<or> is_Publish c \<or> c = Begin)
     (new_calls run_world (fst (Work run_env [] run_world))) =
     [Upload ''deployments/a1b2-7/webroot/index.html'' ''<html><a>'' ''text/html'' ''public-read'',
      Upload ''deployments/a1b2-7/webroot/jsenv.js'' (jsenvFormat ''{}'')
        ''application/javascript'' ''public-read'',
      Upload ''domains/foo-bar-express.rise.cloud/meta.json'' ''a1b2-7'' ''application/json''
        ''public-read'',
      Publish ''edges'' ''v1.invalidation'' [''foo-bar-express.rise.cloud''],
      Begin]"
    by (simp add: run_defs demo_defs new_calls_def)
  from invalidation_order [OF prod.collapse [symmetric] u s, of run_world] u s r c
  show ?thesis by blast
qed

text \<open>The run in which nothing fails, and the run whose commit fails.\<close>

theorem commit_transaction_witness:
  "snd (Work run_env [] run_world) = None \<and>
   map d_State (deployments (db (fst (Work run_env [] run_world)))) = [StateDeployed] \<and>
   map d_DeployedAt (deployments (db (fst (Work run_env [] run_world)))) = [Some 160] \<and>
   map p_ActiveDeploymentID (projects (db (fst (Work run_env [] run_world)))) = [Some 7] \<and>
   snd (Work commit_fails_env [] run_world) = Some (ErrCollaborator ''boom'') \<and>
   CallUpdateState 7 StateDeployed \<in>
     set (new_calls run_world (fst (Work commit_fails_env [] run_world))) \<and>
   db (fst (Work commit_fails_env [] run_world)) = db run_world"
proof -
  have r: "snd (Work commit_fails_env [] run_world) = Some (ErrCollaborator ''boom'')"
    by (simp add: run_defs demo_defs)
  have c: "CallUpdateState 7 StateDeployed \<in>
             set (new_calls run_world (fst (Work commit_fails_env [] run_world)))"
    by (simp add: run_defs demo_defs new_calls_def)
  from commit_transaction [OF prod.collapse [symmetric], of commit_fails_env "[]" run_world] r c
  have d: "db (fst (Work commit_fails_env [] run_world)) = db run_world"
    by blast
  have n: "snd (Work run_env [] run_world) = None"
    by (simp add: run_defs demo_defs)
  have v: "db (fst (Work run_env [] run_world)) =
      demo_db\<lparr>deployments := [demo_deployment\<lparr>d_State := StateDeployed, d_DeployedAt := Some 160\<rparr>],
              projects := [demo_project\<lparr>p_ActiveDeploymentID := Some 7\<rparr>]\<rparr>"
    by (simp add: run_defs demo_defs)
  have m: "map d_State (deployments (db (fst (Work run_env [] run_world)))) = [StateDeployed]"
    "map d_DeployedAt (deployments (db (fst (Work run_env [] run_world)))) = [Some 160]"
    "map p_ActiveDeploymentID (projects (db (fst (Work run_env [] run_world)))) = [Some 7]"
    unfolding v by simp_all
  from commit_transaction [OF prod.collapse [symmetric], of run_env "[]" run_world] n m r c d
  show ?thesis by blast
qed

end
